theory Spec2Isabelle
  imports Complex_Main "HOL-Library.Sublist" "HOL-Library.Code_Target_Nat"
begin

section \<open>Python values\<close>

text \<open>
  A Python \<^verbatim>\<open>str\<close> is a sequence of Unicode code points, and \<^verbatim>\<open>len\<close> counts code
  points; it is modelled as a list of natural numbers. ASCII literals of the source are
  written through \<open>ascii\<close>; the Ukrainian literals and the emoji are spelled out as
  code points below.
\<close>

type_synonym ustr = "nat list"

definition ascii :: "string \<Rightarrow> ustr" where
  "ascii s = map of_char s"

text \<open>\<^verbatim>\<open>str(n)\<close> of an integer: decimal digits, with a minus sign when negative.\<close>

fun digits :: "nat \<Rightarrow> ustr" where
  "digits n = (if n < 10 then [48 + n] else digits (n div 10) @ [48 + n mod 10])"

definition str_int :: "int \<Rightarrow> ustr" where
  "str_int z = (if z < 0 then 45 # digits (nat (- z)) else digits (nat z))"

text \<open>The format specification \<^verbatim>\<open>02d\<close>: zero padding on the left up to width two.\<close>

definition fmt_02d :: "int \<Rightarrow> ustr" where
  "fmt_02d z = (let s = str_int z in replicate (2 - length s) 48 @ s)"

text \<open>
  The numbers \<open>format_hours\<close> receives: a Python \<^verbatim>\<open>int\<close>, or a finite \<^verbatim>\<open>float\<close> given by
  its exact value. Every float the program computes is a multiple of \<open>0.5\<close> between \<open>0\<close>
  and \<open>24\<close>; on such values the IEEE operations \<open>*\<close> and \<open>+\<close> are exact, so they are the
  operations on the reals. The non-finite floats are not modelled.
\<close>

datatype pynum = PInt int | PFloat real

text \<open>\<^verbatim>\<open>int(x)\<close> of a float truncates toward zero.\<close>

definition int_of_float :: "real \<Rightarrow> int" where
  "int_of_float x = (if 0 \<le> x then \<lfloor>x\<rfloor> else \<lceil>x\<rceil>)"

section \<open>Rendering of durations and clock times\<close>

text \<open>
  The three forms of the unit word as the source writes them, each with its leading
  space; in transliteration: \<open>hodyna\<close> (singular), \<open>hodyny\<close> (2-4) and \<open>hodyn\<close> (general plural).
\<close>

definition hodyna :: ustr where
  "hodyna = [32, 1075, 1086, 1076, 1080, 1085, 1072]"

definition hodyny :: ustr where
  "hodyny = [32, 1075, 1086, 1076, 1080, 1085, 1080]"

definition hodyn :: ustr where
  "hodyn = [32, 1075, 1086, 1076, 1080, 1085]"

text \<open>
  \<^verbatim>\<open>format_hours\<close> (main.py, lines 25-41). The text of a float inside an f-string is
  Python's \<^verbatim>\<open>repr\<close> of the float; it is the parameter \<open>float_repr\<close>.
\<close>

definition format_hours :: "(real \<Rightarrow> ustr) \<Rightarrow> pynum \<Rightarrow> ustr" where
  "format_hours float_repr hours0 =
     (let hours =
        (case hours0 of
           PInt n \<Rightarrow> PInt n
         | PFloat x \<Rightarrow> if x = of_int (int_of_float x) then PInt (int_of_float x) else PFloat x)
      in case hours of
           PFloat x \<Rightarrow> float_repr x @ hodyny
         | PInt n \<Rightarrow>
             if n mod 10 = 1 \<and> n mod 100 \<noteq> 11 then str_int n @ hodyna
             else if n mod 10 \<in> {2, 3, 4} \<and> n mod 100 \<notin> {12, 13, 14} then str_int n @ hodyny
             else str_int n @ hodyn)"

text \<open>\<^verbatim>\<open>format_slot_time\<close> (lines 44-53); \<^verbatim>\<open>//\<close> and \<^verbatim>\<open>%\<close> are floor division and modulus.\<close>

definition format_slot_time :: "int \<Rightarrow> ustr" where
  "format_slot_time slot =
     (let total_minutes = slot * 30;
          hours = total_minutes div 60;
          minutes = total_minutes mod 60
      in if hours = 24 then ascii ''24:00''
         else fmt_02d hours @ ascii '':'' @ fmt_02d minutes)"

section \<open>The feed document\<close>

text \<open>
  What \<^verbatim>\<open>response.json()\<close> returns: \<^verbatim>\<open>None\<close>, a bool, an int, a float, a str, a list
  or a dict. A dict is kept as the list of its items in insertion order (the order
  \<^verbatim>\<open>keys()\<close> iterates in); its keys are distinct, and a lookup takes the first item with
  the key.
\<close>

datatype json =
    JNull
  | JBool bool
  | JInt int
  | JFloat real
  | JStr ustr
  | JList "json list"
  | JDict "(ustr \<times> json) list"

type_synonym dict = "(ustr \<times> json) list"

text \<open>Truthiness, as \<^verbatim>\<open>not x\<close> and \<^verbatim>\<open>if x\<close> test it.\<close>

fun truthy :: "json \<Rightarrow> bool" where
  "truthy JNull = False"
| "truthy (JBool b) = b"
| "truthy (JInt n) = (n \<noteq> 0)"
| "truthy (JFloat x) = (x \<noteq> 0)"
| "truthy (JStr s) = (s \<noteq> [])"
| "truthy (JList xs) = (xs \<noteq> [])"
| "truthy (JDict d) = (d \<noteq> [])"

text \<open>\<^verbatim>\<open>d.get(key, default)\<close> on a dict.\<close>

definition dict_get :: "dict \<Rightarrow> ustr \<Rightarrow> json \<Rightarrow> json" where
  "dict_get d key dflt = (case map_of d key of None \<Rightarrow> dflt | Some v \<Rightarrow> v)"

section \<open>build\_schedule\<close>

text \<open>
  The \<^verbatim>\<open>if\<close>/\<^verbatim>\<open>elif\<close> chain of lines 109-130: the powered state of the first and of the
  second half of one hour.
\<close>

definition half_hours :: "json \<Rightarrow> bool \<times> bool" where
  "half_hours status =
     (if status = JStr (ascii ''yes'') then (True, True)
      else if status = JStr (ascii ''no'') then (False, False)
      else if status = JStr (ascii ''first'') then (False, True)
      else if status = JStr (ascii ''second'') then (True, False)
      else if status \<in> set [JStr (ascii ''maybe''), JStr (ascii ''mfirst''), JStr (ascii ''msecond'')]
        then (True, True)
      else (True, True))"

text \<open>The first loop (lines 98-133): two slots for each hour of \<^verbatim>\<open>range(1, 25)\<close>.\<close>

definition slots_of :: "dict \<Rightarrow> bool list" where
  "slots_of day_data =
     concat (map (\<lambda>hour.
        let hour_key = str_int hour;
            status = dict_get day_data hour_key (JStr (ascii ''yes''));
            (first_half, second_half) = half_hours status
        in [first_half, second_half]) [1..24])"

text \<open>A period: the dict with the keys \<^verbatim>\<open>start\<close>, \<^verbatim>\<open>end\<close>, \<^verbatim>\<open>is_on\<close> and \<^verbatim>\<open>hours\<close>.\<close>

record period =
  start :: ustr
  finish :: ustr
  is_on :: bool
  hours :: real

text \<open>
  The second loop (lines 139-157) over \<^verbatim>\<open>range(1, len(slots))\<close>; its state is
  \<^verbatim>\<open>periods\<close>, \<^verbatim>\<open>current_status\<close> and \<^verbatim>\<open>start_slot\<close>. Every index it reads is in range.
\<close>

definition merge_step ::
  "bool list \<Rightarrow> period list \<times> bool \<times> nat \<Rightarrow> nat \<Rightarrow> period list \<times> bool \<times> nat" where
  "merge_step slots st i =
     (case st of (periods, current_status, start_slot) \<Rightarrow>
        if slots ! i \<noteq> current_status then
          (periods @
             [\<lparr>start = format_slot_time (int start_slot),
               finish = format_slot_time (int i),
               is_on = current_status,
               hours = (real i - real start_slot) * 0.5\<rparr>],
           slots ! i, i)
        else (periods, current_status, start_slot))"

text \<open>The merge phase (lines 136-168).\<close>

definition merge_slots :: "bool list \<Rightarrow> period list" where
  "merge_slots slots =
     (if slots = [] then []
      else
        (case foldl (merge_step slots) ([], slots ! 0, 0) [1..<length slots] of
           (periods, current_status, start_slot) \<Rightarrow>
             periods @
               [\<lparr>start = format_slot_time (int start_slot),
                 finish = format_slot_time (int (length slots)),
                 is_on = current_status,
                 hours = (real (length slots) - real start_slot) * 0.5\<rparr>]))"

definition build_schedule :: "dict \<Rightarrow> period list" where
  "build_schedule day_data = merge_slots (slots_of day_data)"

section \<open>Errors and string operations\<close>

text \<open>The exceptions the program can raise; a computation that can raise returns a sum.\<close>

datatype py_error =
    AttributeError
  | TypeError
  | ValueError
  | KeyError
  | UnboundLocalError
  | OverflowError
  | OSError
  | UnicodeEncodeError

definition bind :: "py_error + 'a \<Rightarrow> ('a \<Rightarrow> py_error + 'b) \<Rightarrow> py_error + 'b" where
  "bind m f = (case m of Inl e \<Rightarrow> Inl e | Inr x \<Rightarrow> f x)"

text \<open>\<^verbatim>\<open>sep.join(xs)\<close>.\<close>

fun join :: "ustr \<Rightarrow> ustr list \<Rightarrow> ustr" where
  "join sep [] = []"
| "join sep [x] = x"
| "join sep (x # y # xs) = x @ sep @ join sep (y # xs)"

text \<open>
  \<^verbatim>\<open>s.replace(old, new)\<close>: every non-overlapping occurrence, from the left; an empty
  \<^verbatim>\<open>old\<close> matches before every character and at the end.
\<close>

function str_replace :: "ustr \<Rightarrow> ustr \<Rightarrow> ustr \<Rightarrow> ustr" where
  "str_replace old new s =
     (if old = [] then new @ concat (map (\<lambda>c. c # new) s)
      else if s = [] then []
      else if prefix old s then new @ str_replace old new (drop (length old) s)
      else hd s # str_replace old new (tl s))"
  by pat_completeness auto
termination
  by (relation "measure (\<lambda>(old, new, s). length s)") auto

text \<open>
  \<^verbatim>\<open>s.split(sep)\<close> for a non-empty separator: the text is cut at every non-overlapping
  occurrence, from the left; \<open>cur\<close> is the piece being read. (Python raises ValueError on
  an empty separator; the program splits on a constant only.)
\<close>

function split_from :: "ustr \<Rightarrow> ustr \<Rightarrow> ustr \<Rightarrow> ustr list" where
  "split_from sep cur s =
     (if s = [] then [cur]
      else if sep \<noteq> [] \<and> prefix sep s then cur # split_from sep [] (drop (length sep) s)
      else split_from sep (cur @ [hd s]) (tl s))"
  by pat_completeness auto
termination
  by (relation "measure (\<lambda>(sep, cur, s). length s)") auto

definition str_split :: "ustr \<Rightarrow> ustr \<Rightarrow> ustr list" where
  "str_split s sep = split_from sep [] s"

text \<open>\<^verbatim>\<open>s.strip()\<close>: the characters for which \<^verbatim>\<open>str.isspace\<close> holds are removed at both ends.\<close>

definition isspace :: "nat \<Rightarrow> bool" where
  "isspace c =
     ((9 \<le> c \<and> c \<le> 13) \<or> (28 \<le> c \<and> c \<le> 32) \<or> c = 133 \<or> c = 160 \<or> c = 5760 \<or>
      (8192 \<le> c \<and> c \<le> 8202) \<or> c = 8232 \<or> c = 8233 \<or> c = 8239 \<or> c = 8287 \<or> c = 12288)"

definition str_strip :: "ustr \<Rightarrow> ustr" where
  "str_strip s = rev (dropWhile isspace (rev (dropWhile isspace s)))"

section \<open>format\_schedule\_message\<close>

text \<open>
  The literals of the report: the weekday names, the words for "today" and "tomorrow"
  (in transliteration \<open>sohodni\<close> and \<open>zavtra\<close>), the calendar emoji and the header text, the two
  battery emoji, and the two summary prefixes.
\<close>

definition DAYS_UA :: "(nat \<times> ustr) list" where
  "DAYS_UA =
     [(0, [1055, 1086, 1085, 1077, 1076, 1110, 1083, 1086, 1082]),
      (1, [1042, 1110, 1074, 1090, 1086, 1088, 1086, 1082]),
      (2, [1057, 1077, 1088, 1077, 1076, 1072]),
      (3, [1063, 1077, 1090, 1074, 1077, 1088]),
      (4, [1055, 39, 1103, 1090, 1085, 1080, 1094, 1103]),
      (5, [1057, 1091, 1073, 1086, 1090, 1072]),
      (6, [1053, 1077, 1076, 1110, 1083, 1103])]"

definition sohodni :: ustr where
  "sohodni = [1089, 1100, 1086, 1075, 1086, 1076, 1085, 1110]"

definition zavtra :: ustr where
  "zavtra = [1079, 1072, 1074, 1090, 1088, 1072]"

definition header_prefix :: ustr where
  "header_prefix =
     [128467, 32, 1043, 1088, 1072, 1092, 1110, 1082, 32, 1074, 1110, 1076, 1082, 1083, 1102,
      1095, 1077, 1085, 1100, 32, 1085, 1072, 32]"

definition header_group :: ustr where
  "header_group = [41, 44, 32, 1075, 1088, 1091, 1087, 1072, 32]"

definition emoji_on :: ustr where
  "emoji_on = [128267]"

definition emoji_off :: ustr where
  "emoji_off = [129707]"

definition svitlo_ye :: ustr where
  "svitlo_ye = [1057, 1074, 1110, 1090, 1083, 1086, 32, 1108, 32]"

definition svitla_nema :: ustr where
  "svitla_nema = [1057, 1074, 1110, 1090, 1083, 1072, 32, 1085, 1077, 1084, 1072, 32]"

text \<open>
  A \<^verbatim>\<open>datetime\<close>, as far as the program reads it: \<^verbatim>\<open>weekday()\<close> and the day and month
  that \<^verbatim>\<open>strftime("%d.%m")\<close> prints.
\<close>

record datetime =
  weekday :: nat
  day :: nat
  month :: nat

text \<open>The body of the loop over the schedule (lines 185-193); \<open>on_hours\<close> and \<open>off_hours\<close> are \<^verbatim>\<open>total_on\<close> and \<^verbatim>\<open>total_off\<close>.\<close>

definition render_step ::
  "(real \<Rightarrow> ustr) \<Rightarrow> ustr list \<times> real \<times> real \<Rightarrow> period \<Rightarrow> ustr list \<times> real \<times> real" where
  "render_step float_repr st p =
     (case st of (lines, on_hours, off_hours) \<Rightarrow>
        let emoji = (if is_on p then emoji_on else emoji_off);
            hours_text = format_hours float_repr (PFloat (hours p));
            lines' = lines @ [emoji @ start p @ ascii '' - '' @ finish p @ ascii '' ('' @
                                hours_text @ ascii '')'']
        in if is_on p then (lines', on_hours + hours p, off_hours)
           else (lines', on_hours, off_hours + hours p))"

text \<open>\<^verbatim>\<open>format_schedule_message\<close> (lines 171-199).\<close>

definition format_schedule_message ::
  "(real \<Rightarrow> ustr) \<Rightarrow> period list \<Rightarrow> datetime \<Rightarrow> ustr \<Rightarrow> bool \<Rightarrow> py_error + ustr" where
  "format_schedule_message float_repr schedule date grp is_today =
     (case map_of DAYS_UA (weekday date) of
        None \<Rightarrow> Inl KeyError
      | Some day_name \<Rightarrow>
          let date_str = fmt_02d (int (day date)) @ ascii ''.'' @ fmt_02d (int (month date));
              day_type = (if is_today then sohodni else zavtra);
              group_num = str_replace (ascii ''GPV'') [] grp;
              header = header_prefix @ day_type @ ascii '', '' @ date_str @ ascii '' ('' @
                       day_name @ header_group @ group_num @ ascii '':''
          in case foldl (render_step float_repr) ([header], 0, 0) schedule of
               (lines, on_hours, off_hours) \<Rightarrow>
                 Inr (join (ascii [CHR 0x0A])
                        (lines @
                         [[],
                          svitlo_ye @ format_hours float_repr (PFloat on_hours),
                          svitla_nema @ format_hours float_repr (PFloat off_hours)])))"

section \<open>format\_full\_message\<close>

text \<open>
  What the program takes from the Python library and its process environment: the
  builtin \<^verbatim>\<open>int\<close> on a str (it raises ValueError on a str that is no integer literal),
  \<^verbatim>\<open>datetime.fromtimestamp\<close> (the local time zone decides the date; it raises on a
  timestamp out of range), \<^verbatim>\<open>repr\<close> of a float, and the text encoding that
  \<^verbatim>\<open>open(CACHE_FILE, "w")\<close> takes from the locale: \<open>encodable\<close> tells whether it can encode
  a str (UTF-8 encodes every str but those with a surrogate code point).
\<close>

record pyenv =
  int_of_str :: "ustr \<Rightarrow> py_error + int"
  fromtimestamp :: "int \<Rightarrow> py_error + datetime"
  float_repr :: "real \<Rightarrow> ustr"
  encodable :: "ustr \<Rightarrow> bool"

text \<open>\<^verbatim>\<open>x.get(key, default)\<close> on any value: only a dict has the method.\<close>

definition json_get :: "json \<Rightarrow> ustr \<Rightarrow> json \<Rightarrow> py_error + json" where
  "json_get x key dflt =
     (case x of JDict d \<Rightarrow> Inr (dict_get d key dflt) | _ \<Rightarrow> Inl AttributeError)"

text \<open>\<^verbatim>\<open>d[key]\<close> on a dict.\<close>

definition dict_index :: "dict \<Rightarrow> ustr \<Rightarrow> py_error + json" where
  "dict_index d key = (case map_of d key of None \<Rightarrow> Inl KeyError | Some v \<Rightarrow> Inr v)"

text \<open>A function that can raise, applied along a list from the left; the first error ends it.\<close>

fun map_err :: "('a \<Rightarrow> py_error + 'b) \<Rightarrow> 'a list \<Rightarrow> py_error + 'b list" where
  "map_err f [] = Inr []"
| "map_err f (x # xs) = bind (f x) (\<lambda>y. bind (map_err f xs) (\<lambda>ys. Inr (y # ys)))"

text \<open>
  A loop that appends to a list or skips (\<^verbatim>\<open>continue\<close>, or an \<^verbatim>\<open>if\<close> around the append):
  the body returns \<open>None\<close> when it skips.
\<close>

definition collect :: "('a \<Rightarrow> py_error + 'b option) \<Rightarrow> 'a list \<Rightarrow> py_error + 'b list" where
  "collect f xs = bind (map_err f xs) (\<lambda>rs. Inr (List.map_filter id rs))"

text \<open>\<^verbatim>\<open>sorted(fact_data.keys(), key=lambda x: int(x))\<close>: a stable sort.\<close>

definition sorted_days_of :: "pyenv \<Rightarrow> ustr list \<Rightarrow> py_error + ustr list" where
  "sorted_days_of env ks =
     bind (map_err (int_of_str env) ks) (\<lambda>ns. Inr (map snd (sort_key fst (zip ns ks))))"

definition groups :: "ustr list" where
  "groups = [ascii ''GPV12.1'', ascii ''GPV18.1'']"

definition day_sep :: ustr where
  "day_sep = ascii [CHR 0x0A, CHR ''-'', CHR ''-'', CHR ''-'', CHR 0x0A]"

definition group_sep :: ustr where
  "group_sep = ascii [CHR 0x0A, CHR ''='', CHR ''='', CHR ''='', CHR 0x0A]"

text \<open>
  The body of the inner loop (lines 219-229) for one \<^verbatim>\<open>(idx, day_ts)\<close>: \<open>None\<close> when the
  day is skipped, the day's message otherwise.
\<close>

definition day_message ::
  "pyenv \<Rightarrow> dict \<Rightarrow> ustr \<Rightarrow> nat \<times> ustr \<Rightarrow> py_error + ustr option" where
  "day_message env fact_data grp p =
     (case p of (idx, day_ts) \<Rightarrow>
        bind (dict_index fact_data day_ts) (\<lambda>day_groups.
        bind (json_get day_groups grp JNull) (\<lambda>day_data.
          if \<not> truthy day_data then Inr None
          else
            bind (int_of_str env day_ts) (\<lambda>ts.
            bind (fromtimestamp env ts) (\<lambda>date.
              let is_today = (idx = 0) in
              bind (case day_data of
                      JDict d \<Rightarrow> Inr (build_schedule d)
                    | _ \<Rightarrow> Inl AttributeError) (\<lambda>schedule.
              bind (format_schedule_message (float_repr env) schedule date grp is_today)
                (\<lambda>message. Inr (Some message))))))))"

text \<open>The body of the outer loop (lines 216-232) for one group.\<close>

definition group_message :: "pyenv \<Rightarrow> dict \<Rightarrow> ustr list \<Rightarrow> ustr \<Rightarrow> py_error + ustr option" where
  "group_message env fact_data sorted_days grp =
     bind (collect (day_message env fact_data grp) (enumerate 0 (take 2 sorted_days)))
       (\<lambda>group_messages.
          Inr (if group_messages \<noteq> [] then Some (join day_sep group_messages) else None))"

text \<open>The list \<^verbatim>\<open>all_messages\<close> when the loops are over (lines 210-232).\<close>

definition all_messages :: "pyenv \<Rightarrow> dict \<Rightarrow> py_error + ustr list" where
  "all_messages env fact_data =
     bind (sorted_days_of env (map fst fact_data)) (\<lambda>sorted_days.
       collect (group_message env fact_data sorted_days) groups)"

text \<open>\<^verbatim>\<open>format_full_message\<close> (lines 202-234); the result \<open>None\<close> is Python's \<^verbatim>\<open>None\<close>.\<close>

definition format_full_message :: "pyenv \<Rightarrow> json \<Rightarrow> py_error + ustr option" where
  "format_full_message env data =
     bind (json_get data (ascii ''fact'') (JDict [])) (\<lambda>fact.
     bind (json_get fact (ascii ''data'') (JDict [])) (\<lambda>fact_data.
       if \<not> truthy fact_data then Inr None
       else
         (case fact_data of
            JDict fd \<Rightarrow> bind (all_messages env fd) (\<lambda>msgs. Inr (Some (join group_sep msgs)))
          | _ \<Rightarrow> Inl AttributeError)))"

section \<open>Delivery\<close>

text \<open>
  One call of \<^verbatim>\<open>requests.post\<close> followed by \<^verbatim>\<open>raise_for_status\<close>: the call raises (no
  response object exists), or it returns a response whose status raises, or whose status
  is accepted. The transport gives the outcome of the \<open>k\<close>-th call of a run.
\<close>

datatype post_outcome = PostRaises | PostBadStatus | PostOk

type_synonym transport = "nat \<Rightarrow> post_outcome"

text \<open>\<^verbatim>\<open>not x\<close> for \<^verbatim>\<open>os.environ.get(...)\<close>: unset or empty.\<close>

definition unset :: "ustr option \<Rightarrow> bool" where
  "unset v = (case v of None \<Rightarrow> True | Some s \<Rightarrow> s = [])"

text \<open>Lines 246-251: the parts a message is sent in.\<close>

definition max_length :: nat where
  "max_length = 4000"

definition message_parts :: "ustr \<Rightarrow> ustr list" where
  "message_parts message =
     (if length message \<le> max_length then [message] else str_split message group_sep)"

text \<open>
  The loop over the parts (lines 253-268). \<open>k\<close> counts the calls made, \<open>bound\<close> tells
  whether the local variable \<^verbatim>\<open>response\<close> has been assigned, \<open>sent\<close> lists the payloads
  posted so far. The handler reads \<^verbatim>\<open>response\<close>: while the variable is unassigned that
  raises UnboundLocalError out of the handler.
\<close>

fun send_parts ::
  "transport \<Rightarrow> nat \<Rightarrow> bool \<Rightarrow> ustr list \<Rightarrow> ustr list \<Rightarrow> (py_error + bool) \<times> ustr list" where
  "send_parts tr k bound sent [] = (Inr True, sent)"
| "send_parts tr k bound sent (part # rest) =
     (case tr k of
        PostOk \<Rightarrow> send_parts tr (Suc k) True (sent @ [part]) rest
      | PostBadStatus \<Rightarrow> (Inr False, sent @ [part])
      | PostRaises \<Rightarrow>
          if bound then (Inr False, sent @ [part])
          else (Inl UnboundLocalError, sent @ [part]))"

text \<open>
  \<^verbatim>\<open>send_telegram_message\<close> (lines 237-270): what it returns or raises, and the payloads
  it posted.
\<close>

definition send_telegram_message ::
  "ustr option \<Rightarrow> ustr option \<Rightarrow> transport \<Rightarrow> ustr \<Rightarrow> (py_error + bool) \<times> ustr list" where
  "send_telegram_message token channel tr message =
     (if unset token \<or> unset channel then (Inr False, [])
      else send_parts tr 0 False [] (message_parts message))"

section \<open>The run\<close>

text \<open>
  \<^verbatim>\<open>fetch_data\<close> (lines 56-64): whatever the request or the parser raises is caught and
  becomes \<^verbatim>\<open>None\<close>.
\<close>

datatype fetch_outcome = FetchRaises | FetchBadStatus | FetchNotJson | FetchJson json

definition fetch_data :: "fetch_outcome \<Rightarrow> json" where
  "fetch_data outcome = (case outcome of FetchJson j \<Rightarrow> j | _ \<Rightarrow> JNull)"

text \<open>
  The marker file \<^verbatim>\<open>last_hash.txt\<close>: \<open>None\<close> when it does not exist, its text otherwise
  (the file system itself is taken to work: a file that exists can be read and written).
  \<^verbatim>\<open>get_cached_hash\<close> (lines 67-73) and \<^verbatim>\<open>save_hash\<close> (lines 76-79); opening the file for
  writing empties it, and after that \<^verbatim>\<open>write\<close> raises TypeError on a value that is no str
  and UnicodeEncodeError on a str that the file's encoding cannot encode.
\<close>

definition get_cached_hash :: "ustr option \<Rightarrow> json" where
  "get_cached_hash file = (case file of None \<Rightarrow> JNull | Some s \<Rightarrow> JStr (str_strip s))"

definition save_hash :: "pyenv \<Rightarrow> json \<Rightarrow> ustr option \<times> py_error option" where
  "save_hash env hash_value =
     (case hash_value of
        JStr s \<Rightarrow> if encodable env s then (Some s, None) else (Some [], Some UnicodeEncodeError)
      | _ \<Rightarrow> (Some [], Some TypeError))"

text \<open>\<^verbatim>\<open>content_hash[:16]\<close>: a str or a list can be sliced.\<close>

definition slice16 :: "json \<Rightarrow> py_error + json" where
  "slice16 x =
     (case x of
        JStr s \<Rightarrow> Inr (JStr (take 16 s))
      | JList xs \<Rightarrow> Inr (JList (take 16 xs))
      | _ \<Rightarrow> Inl TypeError)"

text \<open>
  What a run leaves behind: the marker file, the payloads posted, and the exception that
  left \<^verbatim>\<open>main\<close>, if any. Printing to standard output is taken to succeed; what is
  printed is not modelled.
\<close>

record run =
  marker :: "ustr option"
  posts :: "ustr list"
  raised :: "py_error option"

text \<open>Line 282: \<^verbatim>\<open>data.get("meta", {}).get("contentHash", "")\<close>.\<close>

definition content_hash_of :: "json \<Rightarrow> py_error + json" where
  "content_hash_of data =
     bind (json_get data (ascii ''meta'') (JDict []))
       (\<lambda>meta. json_get meta (ascii ''contentHash'') (JStr []))"

text \<open>\<^verbatim>\<open>main\<close> (lines 273-308).\<close>

definition main ::
  "pyenv \<Rightarrow> ustr option \<Rightarrow> ustr option \<Rightarrow> transport \<Rightarrow> fetch_outcome \<Rightarrow> ustr option \<Rightarrow> run" where
  "main env token channel tr outcome file =
     (let data = fetch_data outcome in
      if \<not> truthy data then \<lparr>marker = file, posts = [], raised = None\<rparr>
      else
        case content_hash_of data of
          Inl e \<Rightarrow> \<lparr>marker = file, posts = [], raised = Some e\<rparr>
        | Inr content_hash \<Rightarrow>
            let cached_hash = get_cached_hash file in
            if content_hash = cached_hash then \<lparr>marker = file, posts = [], raised = None\<rparr>
            else
              case bind (slice16 content_hash) (\<lambda>_. format_full_message env data) of
                Inl e \<Rightarrow> \<lparr>marker = file, posts = [], raised = Some e\<rparr>
              | Inr None \<Rightarrow> \<lparr>marker = file, posts = [], raised = None\<rparr>
              | Inr (Some message) \<Rightarrow>
                  if message = [] then \<lparr>marker = file, posts = [], raised = None\<rparr>
                  else
                    case send_telegram_message token channel tr message of
                      (Inl e, sent) \<Rightarrow> \<lparr>marker = file, posts = sent, raised = Some e\<rparr>
                    | (Inr True, sent) \<Rightarrow>
                        (case save_hash env content_hash of
                           (file', err) \<Rightarrow> \<lparr>marker = file', posts = sent, raised = err\<rparr>)
                    | (Inr False, sent) \<Rightarrow> \<lparr>marker = file, posts = sent, raised = None\<rparr>)"

section \<open>Notions of the specification\<close>

text \<open>
  A clock time \<open>HH:MM\<close>, each field two digits with zero padding (for fields below 100).
\<close>

definition clock :: "nat \<Rightarrow> nat \<Rightarrow> ustr" where
  "clock h m = [48 + h div 10, 48 + h mod 10, 58, 48 + m div 10, 48 + m mod 10]"

text \<open>
  The three forms of the numeral agreement, and the rule that picks one for an integer;
  a value is fractional when truncation leaves a non-zero remainder.
\<close>

datatype plural_form = Singular | Few | Many

definition numeral_form :: "int \<Rightarrow> plural_form" where
  "numeral_form n =
     (if n mod 10 = 1 \<and> n mod 100 \<noteq> 11 then Singular
      else if n mod 10 \<in> {2, 3, 4} \<and> n mod 100 \<notin> {12, 13, 14} then Few
      else Many)"

definition fractional :: "real \<Rightarrow> bool" where
  "fractional x = (x - of_int (int_of_float x) \<noteq> 0)"

definition unit_word :: "plural_form \<Rightarrow> ustr" where
  "unit_word f = (case f of Singular \<Rightarrow> hodyna | Few \<Rightarrow> hodyny | Many \<Rightarrow> hodyn)"

text \<open>The two slots of hour \<open>h\<close> (1 to 24) in the encoder's output: \<open>2 * (h - 1)\<close> and the next.\<close>

definition hour_slots :: "dict \<Rightarrow> int \<Rightarrow> bool \<times> bool" where
  "hour_slots day_data h =
     (slots_of day_data ! nat (2 * (h - 1)), slots_of day_data ! nat (2 * (h - 1) + 1))"

text \<open>
  An interval of slots \<open>[a, b)\<close> with its powered value, and the period the merge phase
  writes for it. \<open>tiles a b spans\<close>: the intervals are non-empty, each starts where the one
  before ends, and together they run from \<open>a\<close> to \<open>b\<close> (contiguous, no overlap, every slot
  of \<open>[a, b)\<close> exactly once). \<open>uniform\<close>: every slot of the interval has the interval's
  value. \<open>maximal\<close>: no two adjacent intervals have the same value.
\<close>

type_synonym span = "nat \<times> nat \<times> bool"

definition period_of :: "span \<Rightarrow> period" where
  "period_of sp =
     (case sp of (a, b, v) \<Rightarrow>
        \<lparr>start = format_slot_time (int a), finish = format_slot_time (int b),
         is_on = v, hours = (real b - real a) * 0.5\<rparr>)"

fun tiles :: "nat \<Rightarrow> nat \<Rightarrow> span list \<Rightarrow> bool" where
  "tiles a b [] = (a = b)"
| "tiles a b ((s, e, v) # rest) = (s = a \<and> s < e \<and> tiles e b rest)"

definition uniform :: "bool list \<Rightarrow> span \<Rightarrow> bool" where
  "uniform slots sp = (case sp of (a, b, v) \<Rightarrow> \<forall>k. a \<le> k \<and> k < b \<longrightarrow> slots ! k = v)"

definition maximal :: "span list \<Rightarrow> bool" where
  "maximal spans = distinct_adj (map (\<lambda>sp. snd (snd sp)) spans)"

section \<open>Notions for the proofs, and example data\<close>

text \<open>The invariant of the merge loop before it reads slot \<open>k\<close>.\<close>

definition loop_inv :: "bool list \<Rightarrow> nat \<Rightarrow> period list \<times> bool \<times> nat \<Rightarrow> bool" where
  "loop_inv slots k st =
     (case st of (periods, cur, s) \<Rightarrow>
        \<exists>spans. periods = map period_of spans \<and> s < k \<and> tiles 0 s spans \<and>
                maximal (spans @ [(s, k, cur)]) \<and>
                (\<forall>sp \<in> set spans. uniform slots sp) \<and> uniform slots (s, k, cur))"

text \<open>
  The scenario of the specification: hour "1" off ("no"), hour "2" and every other hour
  on ("yes").
\<close>

definition scenario_day :: dict where
  "scenario_day = (ascii ''1'', JStr (ascii ''no'')) # map (\<lambda>h. (str_int h, JStr (ascii ''yes''))) [2..24]"

text \<open>
  The lines of a day's message: the header, one line for each period, and the totals that
  the two summary lines print.
\<close>

definition newline :: ustr where
  "newline = ascii [CHR 0x0A]"

definition period_line :: "(real \<Rightarrow> ustr) \<Rightarrow> period \<Rightarrow> ustr" where
  "period_line fr p =
     (if is_on p then emoji_on else emoji_off) @ start p @ ascii '' - '' @ finish p @
     ascii '' ('' @ format_hours fr (PFloat (hours p)) @ ascii '')''"

definition header_line :: "datetime \<Rightarrow> ustr \<Rightarrow> bool \<Rightarrow> ustr \<Rightarrow> ustr" where
  "header_line date grp is_today day_name =
     header_prefix @ (if is_today then sohodni else zavtra) @ ascii '', '' @
     (fmt_02d (int (day date)) @ ascii ''.'' @ fmt_02d (int (month date))) @ ascii '' ('' @
     day_name @ header_group @ str_replace (ascii ''GPV'') [] grp @ ascii '':''"

definition hours_on :: "period list \<Rightarrow> real" where
  "hours_on sched = sum_list (map hours (filter is_on sched))"

definition hours_off :: "period list \<Rightarrow> real" where
  "hours_off sched = sum_list (map hours (filter (\<lambda>p. \<not> is_on p) sched))"

text \<open>A text without the character "=" (code point 61).\<close>

definition plain :: "ustr \<Rightarrow> bool" where
  "plain s = (61 \<notin> set s)"

text \<open>
  An environment for the examples. \<open>repr_half\<close> is \<^verbatim>\<open>repr\<close> on the floats \<open>k + 0.5\<close> with
  \<open>0 \<le> k\<close>, the only fractional values the program computes; \<open>int_of_digits\<close> is \<^verbatim>\<open>int\<close> on
  the strings of ASCII digits, the examples' only keys; \<open>demo_fromtimestamp\<close> knows the
  midnights of Monday 3 and Tuesday 4 November 2025 in the time zone of Kyiv; the marker
  file is written in UTF-8.
\<close>

definition repr_half :: "real \<Rightarrow> ustr" where
  "repr_half x = str_int \<lfloor>x\<rfloor> @ ascii ''.5''"

definition int_of_digits :: "ustr \<Rightarrow> py_error + int" where
  "int_of_digits s =
     (if s \<noteq> [] \<and> list_all (\<lambda>c. 48 \<le> c \<and> c \<le> 57) s
      then Inr (foldl (\<lambda>n c. 10 * n + int (c - 48)) 0 s)
      else Inl ValueError)"

definition demo_fromtimestamp :: "int \<Rightarrow> py_error + datetime" where
  "demo_fromtimestamp ts =
     (if ts = 1762120800 then Inr \<lparr>weekday = 0, day = 3, month = 11\<rparr>
      else if ts = 1762207200 then Inr \<lparr>weekday = 1, day = 4, month = 11\<rparr>
      else Inl OSError)"

definition utf8_encodable :: "ustr \<Rightarrow> bool" where
  "utf8_encodable s = list_all (\<lambda>c. \<not> (55296 \<le> c \<and> c \<le> 57343)) s"

definition demo_env :: pyenv where
  "demo_env =
     \<lparr>int_of_str = int_of_digits, fromtimestamp = demo_fromtimestamp, float_repr = repr_half,
      encodable = utf8_encodable\<rparr>"

text \<open>
  A feed in which, on two days, both groups lose power in the first half of every hour:
  48 periods a day.
\<close>

definition flicker_day :: dict where
  "flicker_day = map (\<lambda>h. (str_int h, JStr (ascii ''first''))) [1..24]"

definition flicker_fact_data :: dict where
  "flicker_fact_data =
     [(ascii ''1762120800'',
         JDict [(ascii ''GPV12.1'', JDict flicker_day), (ascii ''GPV18.1'', JDict flicker_day)]),
      (ascii ''1762207200'',
         JDict [(ascii ''GPV12.1'', JDict flicker_day), (ascii ''GPV18.1'', JDict flicker_day)])]"

text \<open>
  Three feed documents with the fingerprint "h1": one with a day for the group GPV12.1
  (hour "1" off), one whose only day has data for another group, one whose \<open>fact.data\<close>
  is empty.
\<close>

definition empty_fact_doc :: json where
  "empty_fact_doc =
     JDict
       [(ascii ''meta'', JDict [(ascii ''contentHash'', JStr (ascii ''h1''))]),
        (ascii ''fact'', JDict [(ascii ''data'', JDict [])])]"

definition demo_day :: dict where
  "demo_day = [(ascii ''1'', JStr (ascii ''no''))]"

definition demo_doc :: json where
  "demo_doc =
     JDict
       [(ascii ''meta'', JDict [(ascii ''contentHash'', JStr (ascii ''h1''))]),
        (ascii ''fact'',
           JDict [(ascii ''data'',
             JDict [(ascii ''1762120800'', JDict [(ascii ''GPV12.1'', JDict demo_day)])])])]"

definition other_groups_fact_data :: dict where
  "other_groups_fact_data =
     [(ascii ''1762120800'', JDict [(ascii ''GPV1.1'', JDict demo_day)])]"

definition other_groups_doc :: json where
  "other_groups_doc =
     JDict
       [(ascii ''meta'', JDict [(ascii ''contentHash'', JStr (ascii ''h1''))]),
        (ascii ''fact'', JDict [(ascii ''data'', JDict other_groups_fact_data)])]"


section \<open>Clock times\<close>

declare digits.simps [simp del]

lemma digits_lt_10: "n < 10 \<Longrightarrow> digits n = [48 + n]"
  by (simp add: digits.simps)

lemma digits_lt_100: "10 \<le> n \<Longrightarrow> n < 100 \<Longrightarrow> digits n = [48 + n div 10, 48 + n mod 10]"
  by (subst digits.simps) (simp add: digits_lt_10)

lemma fmt_02d_two_digits:
  "n < 100 \<Longrightarrow> fmt_02d (int n) = [48 + n div 10, 48 + n mod 10]"
  by (cases "n < 10") (simp_all add: fmt_02d_def str_int_def digits_lt_10 digits_lt_100)

lemma fmt_02d_int: "0 \<le> z \<Longrightarrow> z < 100 \<Longrightarrow> fmt_02d z = [48 + nat z div 10, 48 + nat z mod 10]"
  using fmt_02d_two_digits [of "nat z"] by simp

lemma ascii_colon: "ascii '':'' = [58]"
  by (simp add: ascii_def)

lemma slot_minutes_div: "(s::int) * 30 div 60 = s div 2"
  by linarith

lemma slot_minutes_mod: "(s::int) * 30 mod 60 = 30 * (s mod 2)"
  using mult_mod_right [of 30 s 2] by (simp add: mult.commute)

text \<open>
  C7. For every slot index \<open>s\<close> from 0 to 48, \<open>format_slot_time\<close> renders the time
  \<open>s * 30\<close> minutes after midnight, that is \<open>s div 2\<close> hours and \<open>30 * (s mod 2)\<close> minutes,
  as \<open>HH:MM\<close> with zero padding, except that slot 48 is rendered as "24:00".
\<close>

theorem format_slot_time_clock:
  assumes "0 \<le> s" and "s \<le> 48"
  shows "format_slot_time s =
           (if s = 48 then ascii ''24:00'' else clock (nat s div 2) (30 * (nat s mod 2)))"
proof -
  have h: "0 \<le> s div 2" "s div 2 < 100" and m: "0 \<le> 30 * (s mod 2)" "30 * (s mod 2) < 100"
    using assms by simp_all
  have eq24: "s div 2 = 24 \<longleftrightarrow> s = 48"
    using assms by linarith
  have n: "nat (s div 2) = nat s div 2" "nat (30 * (s mod 2)) = 30 * (nat s mod 2)"
    using assms by (simp_all add: nat_div_distrib nat_mod_distrib nat_mult_distrib)
  show ?thesis
    unfolding format_slot_time_def Let_def slot_minutes_div slot_minutes_mod eq24
    by (simp add: fmt_02d_int [OF h] fmt_02d_int [OF m] n ascii_colon clock_def)
qed

text \<open>Slot 3 is 01:30; slot 48 is 24:00 and not 00:00.\<close>

theorem format_slot_time_clock_witness:
  "(0::int) \<le> 3 \<and> (3::int) \<le> 48 \<and> format_slot_time 3 = ascii ''01:30'' \<and>
   format_slot_time 48 = ascii ''24:00'' \<and> format_slot_time 48 \<noteq> ascii ''00:00''"
  using format_slot_time_clock [of 3] format_slot_time_clock [of 48]
  by (simp add: clock_def ascii_def)

section \<open>Numeral agreement\<close>

lemma format_hours_PInt: "format_hours fr (PInt n) = str_int n @ unit_word (numeral_form n)"
  by (simp add: format_hours_def numeral_form_def unit_word_def)

lemma format_hours_PFloat:
  "format_hours fr (PFloat x) =
     (if fractional x then fr x @ unit_word Few
      else str_int (int_of_float x) @ unit_word (numeral_form (int_of_float x)))"
  by (simp add: format_hours_def numeral_form_def unit_word_def fractional_def)

lemma int_of_float_of_int: "int_of_float (of_int n) = n"
  by (simp add: int_of_float_def)

lemma format_hours_whole:
  "format_hours fr (PFloat (of_int n)) = str_int n @ unit_word (numeral_form n)"
  by (simp add: format_hours_PFloat fractional_def int_of_float_of_int)

text \<open>
  C3. \<open>format_hours\<close> obeys the three-form agreement rule: a fractional value gets the
  2-4 form; otherwise the integer value \<open>n\<close> gets the form the rule gives for \<open>n\<close>. In
  particular 1 and 21 are singular, 2, 3, 4 and 22, 23, 24 get the 2-4 form, 5 to 20 the
  general plural, and 2.5 the 2-4 form.
\<close>

theorem format_hours_agreement:
  "format_hours fr (PFloat x) =
     (if fractional x then fr x @ hodyny
      else str_int (int_of_float x) @ unit_word (numeral_form (int_of_float x))) \<and>
   format_hours fr (PInt n) = str_int n @ unit_word (numeral_form n) \<and>
   map (\<lambda>n. format_hours fr (PFloat (of_int n))) [1, 21] = map (\<lambda>n. str_int n @ hodyna) [1, 21] \<and>
   map (\<lambda>n. format_hours fr (PFloat (of_int n))) [2, 3, 4, 22, 23, 24] =
     map (\<lambda>n. str_int n @ hodyny) [2, 3, 4, 22, 23, 24] \<and>
   map (\<lambda>n. format_hours fr (PFloat (of_int n))) [5..20] = map (\<lambda>n. str_int n @ hodyn) [5..20] \<and>
   format_hours fr (PFloat 2.5) = fr 2.5 @ hodyny"
proof (intro conjI)
  show "format_hours fr (PFloat x) =
     (if fractional x then fr x @ hodyny
      else str_int (int_of_float x) @ unit_word (numeral_form (int_of_float x)))"
    by (simp add: format_hours_PFloat unit_word_def)
  show "format_hours fr (PInt n) = str_int n @ unit_word (numeral_form n)"
    by (rule format_hours_PInt)
  show "map (\<lambda>n. format_hours fr (PFloat (of_int n))) [1, 21] = map (\<lambda>n. str_int n @ hodyna) [1, 21]"
    unfolding format_hours_whole by (simp add: numeral_form_def unit_word_def)
  show "map (\<lambda>n. format_hours fr (PFloat (of_int n))) [2, 3, 4, 22, 23, 24] =
     map (\<lambda>n. str_int n @ hodyny) [2, 3, 4, 22, 23, 24]"
    unfolding format_hours_whole by (simp add: numeral_form_def unit_word_def)
  show "map (\<lambda>n. format_hours fr (PFloat (of_int n))) [5..20] = map (\<lambda>n. str_int n @ hodyn) [5..20]"
    unfolding format_hours_whole by (simp add: numeral_form_def unit_word_def upto_rec1)
  have "fractional 2.5"
    by (simp add: fractional_def int_of_float_def)
  then show "format_hours fr (PFloat 2.5) = fr 2.5 @ hodyny"
    by (simp add: format_hours_PFloat unit_word_def)
qed

section \<open>The slot encoder\<close>

lemma concat_pairs_nth:
  "i < length xs \<Longrightarrow>
     concat (map (\<lambda>x. [f x, g x]) xs) ! (2 * i) = f (xs ! i) \<and>
     concat (map (\<lambda>x. [f x, g x]) xs) ! (2 * i + 1) = g (xs ! i)"
proof (induction xs arbitrary: i)
  case Nil
  then show ?case by simp
next
  case (Cons x xs)
  show ?case
  proof (cases i)
    case 0
    then show ?thesis by simp
  next
    case (Suc j)
    with Cons.prems have "j < length xs" by simp
    from Cons.IH [OF this] show ?thesis by (simp add: Suc)
  qed
qed

lemma length_concat_pairs: "length (concat (map (\<lambda>x. [f x, g x]) xs)) = 2 * length xs"
  by (induction xs) simp_all

lemma slots_of_pairs:
  "slots_of d =
     concat (map (\<lambda>hour. [fst (half_hours (dict_get d (str_int hour) (JStr (ascii ''yes'')))),
                            snd (half_hours (dict_get d (str_int hour) (JStr (ascii ''yes''))))])
               [1..24])"
  by (simp add: slots_of_def Let_def case_prod_beta)

lemma length_slots_of: "length (slots_of d) = 48"
  unfolding slots_of_pairs length_concat_pairs by simp

lemma hour_slots_half_hours:
  assumes "1 \<le> h" and "h \<le> 24"
  shows "hour_slots d h = half_hours (dict_get d (str_int h) (JStr (ascii ''yes'')))"
proof -
  define i where "i = nat (h - 1)"
  have i: "i < length [1..24::int]" and nth: "[1..24::int] ! i = h"
    using assms by (simp_all add: i_def)
  have idx: "nat (2 * (h - 1)) = 2 * i" "nat (2 * (h - 1) + 1) = 2 * i + 1"
    using assms by (simp_all add: i_def)
  let ?st = "\<lambda>hour. half_hours (dict_get d (str_int hour) (JStr (ascii ''yes'')))"
  from concat_pairs_nth [OF i, of "\<lambda>hour. fst (?st hour)" "\<lambda>hour. snd (?st hour)"]
  show ?thesis
    unfolding hour_slots_def idx slots_of_pairs nth by simp
qed

text \<open>
  C4. For every hour \<open>h\<close> of the day, the pair of slots that \<open>build_schedule\<close> fills for
  it is (on, on) for "yes", (off, off) for "no", (off, on) for "first", (on, off) for
  "second", (on, on) for "maybe", "mfirst" and "msecond", and (on, on) for every other
  value and for a missing key.
\<close>

theorem status_interpretation:
  assumes "1 \<le> h" and "h \<le> 24"
  shows "hour_slots d h =
           (case map_of d (str_int h) of
              None \<Rightarrow> (True, True)
            | Some status \<Rightarrow>
                if status = JStr (ascii ''yes'') then (True, True)
                else if status = JStr (ascii ''no'') then (False, False)
                else if status = JStr (ascii ''first'') then (False, True)
                else if status = JStr (ascii ''second'') then (True, False)
                else if status = JStr (ascii ''maybe'') \<or> status = JStr (ascii ''mfirst'') \<or>
                        status = JStr (ascii ''msecond'') then (True, True)
                else (True, True))"
  unfolding hour_slots_half_hours [OF assms]
  by (simp add: dict_get_def half_hours_def split: option.split)

text \<open>Hour 5 "first", hour 6 an unknown code, hour 7 missing.\<close>

theorem status_interpretation_witness:
  "(1::int) \<le> 5 \<and> (5::int) \<le> 24 \<and>
   hour_slots [(ascii ''5'', JStr (ascii ''first'')), (ascii ''6'', JStr (ascii ''unknown''))] 5 =
     (False, True) \<and>
   hour_slots [(ascii ''5'', JStr (ascii ''first'')), (ascii ''6'', JStr (ascii ''unknown''))] 6 =
     (True, True) \<and>
   hour_slots [(ascii ''5'', JStr (ascii ''first'')), (ascii ''6'', JStr (ascii ''unknown''))] 7 =
     (True, True)"
  using
    status_interpretation [of 5 "[(ascii ''5'', JStr (ascii ''first'')), (ascii ''6'', JStr (ascii ''unknown''))]"]
    status_interpretation [of 6 "[(ascii ''5'', JStr (ascii ''first'')), (ascii ''6'', JStr (ascii ''unknown''))]"]
    status_interpretation [of 7 "[(ascii ''5'', JStr (ascii ''first'')), (ascii ''6'', JStr (ascii ''unknown''))]"]
  by (simp add: str_int_def digits_lt_10 ascii_def)

section \<open>The merge phase\<close>

lemma tiles_snoc: "tiles a m xs \<Longrightarrow> m < e \<Longrightarrow> tiles a e (xs @ [(m, e, v)])"
  by (induction xs arbitrary: a) auto

lemma hours_period_of: "hours (period_of (a, b, v)) = (real b - real a) / 2"
  by (simp add: period_of_def)

lemma tiles_hours:
  "tiles a b xs \<Longrightarrow> sum_list (map (\<lambda>sp. hours (period_of sp)) xs) = (real b - real a) / 2"
proof (induction xs arbitrary: a)
  case Nil
  then show ?case by simp
next
  case (Cons x xs)
  obtain s e v where x: "x = (s, e, v)" by (cases x) auto
  from Cons.prems have "s = a" "tiles e b xs" by (auto simp: x)
  with Cons.IH [of e] show ?case by (simp add: x hours_period_of field_simps)
qed

lemma tiles_hd: "tiles a b xs \<Longrightarrow> xs \<noteq> [] \<Longrightarrow> fst (hd xs) = a"
  by (cases xs) auto

lemma tiles_last: "tiles a b xs \<Longrightarrow> xs \<noteq> [] \<Longrightarrow> fst (snd (last xs)) = b"
proof (induction xs arbitrary: a)
  case Nil
  then show ?case by simp
next
  case (Cons x xs)
  obtain s e v where x: "x = (s, e, v)" by (cases x) auto
  show ?case
  proof (cases "xs = []")
    case True
    with Cons.prems show ?thesis by (simp add: x)
  next
    case False
    from Cons.prems have "tiles e b xs" by (simp add: x)
    from Cons.IH [OF this False] False show ?thesis by simp
  qed
qed

lemma maximal_snoc_change:
  "maximal (xs @ [(a, b, v)]) \<Longrightarrow> w \<noteq> v \<Longrightarrow> maximal ((xs @ [(a, b, v)]) @ [(c, d, w)])"
  unfolding maximal_def by (simp add: distinct_adj_append_iff)

lemma maximal_snoc_extend:
  "maximal (xs @ [(a, b, v)]) \<Longrightarrow> maximal (xs @ [(a, b', v)])"
  unfolding maximal_def by (simp add: distinct_adj_append_iff)

lemma loop_inv_init: "loop_inv slots 1 ([], slots ! 0, 0)"
  by (simp add: loop_inv_def maximal_def uniform_def)

lemma loop_inv_step:
  assumes "loop_inv slots k st" 
  shows "loop_inv slots (Suc k) (merge_step slots st k)"
proof -
  obtain periods cur s where st: "st = (periods, cur, s)"
    by (cases st) auto
  from assms obtain spans where sp:
    "periods = map period_of spans" "s < k" "tiles 0 s spans"
    "maximal (spans @ [(s, k, cur)])" "\<forall>sp \<in> set spans. uniform slots sp"
    "uniform slots (s, k, cur)"
    unfolding st loop_inv_def by auto
  show ?thesis
  proof (cases "slots ! k = cur")
    case True
    have "uniform slots (s, Suc k, cur)"
      using sp(6) True by (auto simp: uniform_def less_Suc_eq)
    moreover have "maximal (spans @ [(s, Suc k, cur)])"
      using sp(4) by (rule maximal_snoc_extend)
    ultimately show ?thesis
      using True sp by (auto simp: st loop_inv_def merge_step_def)
  next
    case False
    let ?spans = "spans @ [(s, k, cur)]"
    have 1: "periods @ [period_of (s, k, cur)] = map period_of ?spans"
      by (simp add: sp(1))
    have 2: "tiles 0 k ?spans"
      using sp(3) sp(2) by (rule tiles_snoc)
    have 3: "maximal (?spans @ [(k, Suc k, slots ! k)])"
      using sp(4) False by (rule maximal_snoc_change)
    have 4: "\<forall>sp \<in> set ?spans. uniform slots sp"
      using sp(5) sp(6) by auto
    have 5: "uniform slots (k, Suc k, slots ! k)"
      by (auto simp: uniform_def less_Suc_eq)
    have "merge_step slots st k = (periods @ [period_of (s, k, cur)], slots ! k, k)"
      using False by (simp add: st merge_step_def period_of_def)
    moreover have "loop_inv slots (Suc k) (periods @ [period_of (s, k, cur)], slots ! k, k)"
      unfolding loop_inv_def prod.case using 1 2 3 4 5 by (intro exI [of _ ?spans]) simp
    ultimately show ?thesis by simp
  qed
qed

lemma loop_inv_foldl:
  "1 \<le> k \<Longrightarrow> loop_inv slots k (foldl (merge_step slots) ([], slots ! 0, 0) [1..<k])"
proof (induction k rule: dec_induct)
  case base
  show ?case using loop_inv_init by simp
next
  case (step n)
  then show ?case by (simp add: loop_inv_step)
qed

lemma merge_slots_spans:
  assumes "slots \<noteq> []"
  shows "\<exists>spans. merge_slots slots = map period_of spans \<and> tiles 0 (length slots) spans \<and>
           maximal spans \<and> (\<forall>sp \<in> set spans. uniform slots sp)"
proof -
  let ?n = "length slots"
  obtain periods cur s where st: "foldl (merge_step slots) ([], slots ! 0, 0) [1..<?n] = (periods, cur, s)"
    by (metis prod_cases3)
  have "1 \<le> ?n" using assms by (cases slots) auto
  from loop_inv_foldl [OF this, of slots] obtain spans where sp:
    "periods = map period_of spans" "s < ?n" "tiles 0 s spans"
    "maximal (spans @ [(s, ?n, cur)])" "\<forall>sp \<in> set spans. uniform slots sp"
    "uniform slots (s, ?n, cur)"
    unfolding st loop_inv_def by auto
  have "merge_slots slots = map period_of (spans @ [(s, ?n, cur)])"
    using assms st by (simp add: merge_slots_def sp(1) period_of_def)
  moreover have "tiles 0 ?n (spans @ [(s, ?n, cur)])"
    using sp(3) sp(2) by (rule tiles_snoc)
  moreover have "\<forall>sp \<in> set (spans @ [(s, ?n, cur)]). uniform slots sp"
    using sp(5) sp(6) by auto
  ultimately show ?thesis using sp(4) by blast
qed

lemma map_period_of_hours:
  "sum_list (map hours (map period_of spans)) = sum_list (map (\<lambda>sp. hours (period_of sp)) spans)"
  by (simp add: comp_def)

text \<open>
  C2. For every sequence of 48 slots, the periods of the merge phase are the periods of
  intervals that are contiguous, do not overlap and cover the slots 0 to 47 exactly once;
  every slot has the value of its interval, no two adjacent intervals have the same
  value, and the hours of all periods sum to 24.
\<close>

theorem merge_slots_cover:
  assumes "length slots = 48"
  shows "(\<exists>spans. merge_slots slots = map period_of spans \<and> tiles 0 48 spans \<and>
            maximal spans \<and> (\<forall>sp \<in> set spans. uniform slots sp)) \<and>
         sum_list (map hours (merge_slots slots)) = 24"
proof -
  from assms have "slots \<noteq> []" by auto
  from merge_slots_spans [OF this] obtain spans where sp:
    "merge_slots slots = map period_of spans" "tiles 0 48 spans"
    "maximal spans" "\<forall>sp \<in> set spans. uniform slots sp"
    unfolding assms by blast
  have "sum_list (map hours (merge_slots slots)) = 24"
    unfolding sp(1) map_period_of_hours using tiles_hours [OF sp(2)] by simp
  with sp show ?thesis by blast
qed

text \<open>Two slots off, then 46 slots on.\<close>

theorem merge_slots_cover_witness:
  "length (replicate 2 False @ replicate 46 True) = 48 \<and>
   (\<exists>spans. merge_slots (replicate 2 False @ replicate 46 True) = map period_of spans \<and>
      tiles 0 48 spans \<and> maximal spans \<and>
      (\<forall>sp \<in> set spans. uniform (replicate 2 False @ replicate 46 True) sp)) \<and>
   sum_list (map hours (merge_slots (replicate 2 False @ replicate 46 True))) = 24"
  using merge_slots_cover [of "replicate 2 False @ replicate 46 True"] by simp

text \<open>
  C9. For every input mapping, the encoder produces exactly 48 slots, so the branch for
  an empty slot list is not taken; \<open>build_schedule\<close> returns a non-empty list whose first
  period starts at "00:00", whose last period ends at "24:00", and whose hours sum to 24.
\<close>

theorem build_schedule_total:
  "length (slots_of d) = 48 \<and> slots_of d \<noteq> [] \<and> build_schedule d \<noteq> [] \<and>
   start (hd (build_schedule d)) = ascii ''00:00'' \<and>
   finish (last (build_schedule d)) = ascii ''24:00'' \<and>
   sum_list (map hours (build_schedule d)) = 24"
proof -
  have len: "length (slots_of d) = 48" by (rule length_slots_of)
  then have ne: "slots_of d \<noteq> []" by auto
  from merge_slots_spans [OF ne] obtain spans where sp:
    "build_schedule d = map period_of spans" "tiles 0 48 spans"
    unfolding len build_schedule_def by blast
  from sp(2) have spne: "spans \<noteq> []" by auto
  have "start (hd (build_schedule d)) = format_slot_time (int (fst (hd spans)))"
    unfolding sp(1) using spne by (simp add: hd_map period_of_def case_prod_beta)
  also have "\<dots> = ascii ''00:00''"
    unfolding tiles_hd [OF sp(2) spne] by (simp add: format_slot_time_def fmt_02d_def str_int_def digits_lt_10 ascii_def)
  finally have s: "start (hd (build_schedule d)) = ascii ''00:00''" .
  have "finish (last (build_schedule d)) = format_slot_time (int (fst (snd (last spans))))"
    unfolding sp(1) using spne by (simp add: last_map period_of_def case_prod_beta)
  also have "\<dots> = ascii ''24:00''"
    unfolding tiles_last [OF sp(2) spne] by (simp add: format_slot_time_def)
  finally have f: "finish (last (build_schedule d)) = ascii ''24:00''" .
  have h: "sum_list (map hours (build_schedule d)) = 24"
    unfolding sp(1) map_period_of_hours using tiles_hours [OF sp(2)] by simp
  from len ne s f h sp(1) spne show ?thesis by simp
qed

section \<open>The day's message\<close>

lemma render_step_eq:
  "render_step fr (ls, a, b) p =
     (ls @ [period_line fr p], a + hours_on [p], b + hours_off [p])"
  by (simp add: render_step_def period_line_def hours_on_def hours_off_def Let_def)

lemma hours_on_Cons: "hours_on (p # ps) = hours_on [p] + hours_on ps"
  by (simp add: hours_on_def)

lemma hours_off_Cons: "hours_off (p # ps) = hours_off [p] + hours_off ps"
  by (simp add: hours_off_def)

lemma foldl_render_step:
  "foldl (render_step fr) (ls, a, b) sched =
     (ls @ map (period_line fr) sched, a + hours_on sched, b + hours_off sched)"
proof (induction sched arbitrary: ls a b)
  case Nil
  show ?case by (simp add: hours_on_def hours_off_def)
next
  case (Cons p ps)
  have "foldl (render_step fr) (ls, a, b) (p # ps) =
          foldl (render_step fr) (ls @ [period_line fr p], a + hours_on [p], b + hours_off [p]) ps"
    by (simp add: render_step_eq)
  also have "\<dots> = ((ls @ [period_line fr p]) @ map (period_line fr) ps,
                      (a + hours_on [p]) + hours_on ps, (b + hours_off [p]) + hours_off ps)"
    by (rule Cons.IH)
  finally show ?case
    by (simp add: hours_on_Cons [of p ps] hours_off_Cons [of p ps] add.assoc)
qed

lemma format_schedule_message_lines:
  assumes "map_of DAYS_UA (weekday date) = Some day_name"
  shows "format_schedule_message fr sched date grp is_today =
           Inr (join newline
                  ((header_line date grp is_today day_name # map (period_line fr) sched) @
                   [[], svitlo_ye @ format_hours fr (PFloat (hours_on sched)),
                    svitla_nema @ format_hours fr (PFloat (hours_off sched))]))"
  unfolding format_schedule_message_def assms option.case Let_def foldl_render_step prod.case
  by (simp add: header_line_def newline_def)

lemma join_snoc: "xs \<noteq> [] \<Longrightarrow> join sep (xs @ [a]) = join sep xs @ sep @ a"
  by (induction sep xs rule: join.induct) simp_all

lemma join_snoc2:
  "xs \<noteq> [] \<Longrightarrow> join sep (xs @ [a, b]) = join sep xs @ sep @ a @ sep @ b"
  using join_snoc [of "xs @ [a]" sep b] join_snoc [of xs sep a] by simp

lemma DAYS_UA_total: "w < 7 \<Longrightarrow> \<exists>day_name. map_of DAYS_UA w = Some day_name"
proof -
  assume "w < 7"
  then have "w = 0 \<or> w = 1 \<or> w = 2 \<or> w = 3 \<or> w = 4 \<or> w = 5 \<or> w = 6" by arith
  then show ?thesis by (auto simp: DAYS_UA_def)
qed

lemma format_schedule_message_summary:
  assumes "weekday date < 7"
  shows "\<exists>body. format_schedule_message fr sched date grp is_today =
           Inr (body @ newline @ svitlo_ye @ format_hours fr (PFloat (hours_on sched)) @
                newline @ svitla_nema @ format_hours fr (PFloat (hours_off sched)))"
proof -
  from DAYS_UA_total [OF assms] obtain day_name where
    d: "map_of DAYS_UA (weekday date) = Some day_name" by blast
  let ?ls = "header_line date grp is_today day_name # map (period_line fr) sched"
  let ?on = "svitlo_ye @ format_hours fr (PFloat (hours_on sched))"
  let ?off = "svitla_nema @ format_hours fr (PFloat (hours_off sched))"
  have "join newline (?ls @ [[], ?on, ?off]) = join newline (?ls @ [[]]) @ newline @ ?on @ newline @ ?off"
    using join_snoc2 [of "?ls @ [[]]" newline ?on ?off] by simp
  then show ?thesis
    unfolding format_schedule_message_lines [OF d] by (intro exI [of _ "join newline (?ls @ [[]])"]) simp
qed

section \<open>The end-to-end scenario\<close>

lemma slots_of_scenario_day: "slots_of scenario_day = replicate 2 False @ replicate 46 True"
  by code_simp

lemma build_schedule_scenario_day:
  "build_schedule scenario_day =
     [\<lparr>start = ascii ''00:00'', finish = ascii ''01:00'', is_on = False, hours = 1\<rparr>,
      \<lparr>start = ascii ''01:00'', finish = ascii ''24:00'', is_on = True, hours = 23\<rparr>]"
  by code_simp

text \<open>
  C5 as stated fails: for the scenario's mapping \<open>build_schedule\<close> does not return the
  interval list [00:00-02:00 off 2.0, 02:00-24:00 on 22.0].
\<close>

theorem scenario_claimed_schedule_counterexample:
  "build_schedule scenario_day \<noteq>
     [\<lparr>start = ascii ''00:00'', finish = ascii ''02:00'', is_on = False, hours = 2\<rparr>,
      \<lparr>start = ascii ''02:00'', finish = ascii ''24:00'', is_on = True, hours = 22\<rparr>]"
  unfolding build_schedule_scenario_day by simp

text \<open>
  C5, amended. Hour "1" is the hour from 00:00 to 01:00, so for the scenario's mapping
  \<open>build_schedule\<close> returns [00:00-01:00 off 1.0, 01:00-24:00 on 23.0], and the last two
  lines of the message of \<open>format_schedule_message\<close> read total on "23 hodyny" and total off
  "1 hodyna".
\<close>

theorem scenario_schedule_and_summary:
  assumes "weekday date < 7"
  shows "build_schedule scenario_day =
           [\<lparr>start = ascii ''00:00'', finish = ascii ''01:00'', is_on = False, hours = 1\<rparr>,
            \<lparr>start = ascii ''01:00'', finish = ascii ''24:00'', is_on = True, hours = 23\<rparr>] \<and>
         (\<exists>body. format_schedule_message fr (build_schedule scenario_day) date grp is_today =
            Inr (body @ newline @ svitlo_ye @ ascii ''23'' @ hodyny @
                 newline @ svitla_nema @ ascii ''1'' @ hodyna))"
proof -
  have on: "hours_on (build_schedule scenario_day) = 23" and off: "hours_off (build_schedule scenario_day) = 1"
    unfolding build_schedule_scenario_day by (simp_all add: hours_on_def hours_off_def)
  have 23: "format_hours fr (PFloat 23) = ascii ''23'' @ hodyny"
    using format_hours_whole [of fr 23]
    by (simp add: numeral_form_def unit_word_def str_int_def digits_lt_100 ascii_def)
  have 1: "format_hours fr (PFloat 1) = ascii ''1'' @ hodyna"
    using format_hours_whole [of fr 1]
    by (simp add: numeral_form_def unit_word_def str_int_def digits_lt_10 ascii_def)
  from format_schedule_message_summary [OF assms, of fr "build_schedule scenario_day" grp is_today]
  have "\<exists>body. format_schedule_message fr (build_schedule scenario_day) date grp is_today =
            Inr (body @ newline @ svitlo_ye @ ascii ''23'' @ hodyny @
                 newline @ svitla_nema @ ascii ''1'' @ hodyna)"
    unfolding on off 23 1 by (simp only: append_assoc)
  with build_schedule_scenario_day show ?thesis by (rule conjI)
qed

text \<open>A Tuesday, 3 November, group GPV12.1, today.\<close>

theorem scenario_schedule_and_summary_witness:
  "weekday \<lparr>weekday = 1, day = 3, month = 11\<rparr> < 7 \<and>
   build_schedule scenario_day =
     [\<lparr>start = ascii ''00:00'', finish = ascii ''01:00'', is_on = False, hours = 1\<rparr>,
      \<lparr>start = ascii ''01:00'', finish = ascii ''24:00'', is_on = True, hours = 23\<rparr>] \<and>
   (\<exists>body. format_schedule_message (\<lambda>x. []) (build_schedule scenario_day)
              \<lparr>weekday = 1, day = 3, month = 11\<rparr> (ascii ''GPV12.1'') True =
      Inr (body @ newline @ svitlo_ye @ ascii ''23'' @ hodyny @
           newline @ svitla_nema @ ascii ''1'' @ hodyna))"
proof -
  have w: "weekday \<lparr>weekday = 1, day = 3, month = 11\<rparr> < 7" by simp
  from w scenario_schedule_and_summary [OF w, of "\<lambda>x. []" "ascii ''GPV12.1''" True]
  show ?thesis by (intro conjI) (erule conjunct1 conjunct2 | assumption)+
qed

section \<open>Splitting and joining\<close>

declare split_from.simps [simp del] str_replace.simps [simp del]

lemma split_from_nonempty: "split_from sep cur s \<noteq> []"
  by (induction sep cur s rule: split_from.induct) (subst split_from.simps, simp)

lemma join_Cons: "ys \<noteq> [] \<Longrightarrow> join sep (x # ys) = x @ sep @ join sep ys"
  by (cases ys) simp_all

lemma join_split_from: "join sep (split_from sep cur s) = cur @ s"
proof (induction sep cur s rule: split_from.induct)
  case (1 sep cur s)
  show ?case
  proof (cases "s = []")
    case True
    then show ?thesis by (subst split_from.simps) simp
  next
    case False
    show ?thesis
    proof (cases "sep \<noteq> [] \<and> prefix sep s")
      case True
      then obtain r where r: "s = sep @ r" by (auto simp: prefix_def)
      have "split_from sep cur s = cur # split_from sep [] r"
        using False True by (subst split_from.simps) (simp add: r)
      moreover have "join sep (split_from sep [] r) = r"
        using "1.IH"(1) [OF False True] by (simp add: r)
      ultimately show ?thesis
        by (simp add: join_Cons split_from_nonempty r)
    next
      case nosplit: False
      have "split_from sep cur s = split_from sep (cur @ [hd s]) (tl s)"
        using False nosplit by (subst split_from.simps) auto
      then show ?thesis
        using "1.IH"(2) [OF False nosplit] False by simp
    qed
  qed
qed

lemma split_from_no_sep:
  assumes "sep \<noteq> []"
    and "\<forall>i < length cur. \<not> prefix sep (drop i (cur @ s))"
  shows "\<forall>part \<in> set (split_from sep cur s). \<not> sublist sep part"
  using assms
proof (induction sep cur s rule: split_from.induct)
  case (1 sep cur s)
  have cur_free: "\<not> sublist sep cur"
  proof
    assume "sublist sep cur"
    then obtain ps ss where c: "cur = ps @ sep @ ss" by (auto simp: sublist_def)
    have "length ps < length cur" using "1.prems"(1) by (simp add: c)
    moreover have "prefix sep (drop (length ps) (cur @ s))" by (simp add: c)
    ultimately show False using "1.prems"(2) by blast
  qed
  show ?case
  proof (cases "s = []")
    case True
    then show ?thesis using cur_free by (subst split_from.simps) simp
  next
    case False
    show ?thesis
    proof (cases "sep \<noteq> [] \<and> prefix sep s")
      case True
      have eq: "split_from sep cur s = cur # split_from sep [] (drop (length sep) s)"
        using False True by (subst split_from.simps) simp
      have "\<forall>part \<in> set (split_from sep [] (drop (length sep) s)). \<not> sublist sep part"
        using "1.IH"(1) [OF False True "1.prems"(1)] by simp
      then show ?thesis using cur_free by (simp add: eq)
    next
      case nosplit: False
      have eq: "split_from sep cur s = split_from sep (cur @ [hd s]) (tl s)"
        using False nosplit by (subst split_from.simps) auto
      have same: "(cur @ [hd s]) @ tl s = cur @ s" using False by simp
      have "\<forall>i < length (cur @ [hd s]). \<not> prefix sep (drop i ((cur @ [hd s]) @ tl s))"
      proof (intro allI impI)
        fix i assume "i < length (cur @ [hd s])"
        then consider "i < length cur" | "i = length cur" by fastforce
        then show "\<not> prefix sep (drop i ((cur @ [hd s]) @ tl s))"
        proof cases
          case 1
          then show ?thesis unfolding same using "1.prems"(2) by blast
        next
          case 2
          then show ?thesis unfolding same using nosplit "1.prems"(1) by simp
        qed
      qed
      from "1.IH"(2) [OF False nosplit "1.prems"(1) this] show ?thesis by (simp add: eq)
    qed
  qed
qed

lemma str_split_no_sep:
  "sep \<noteq> [] \<Longrightarrow> \<forall>part \<in> set (str_split s sep). \<not> sublist sep part"
  unfolding str_split_def by (rule split_from_no_sep) simp_all

lemma join_str_split: "join sep (str_split s sep) = s"
  by (simp add: str_split_def join_split_from)

lemma group_sep_eq: "group_sep = [10, 61, 61, 61, 10]"
  by (simp add: group_sep_def ascii_def)

lemma not_prefix_group_sep:
  assumes "plain (c # g)" and "s = [] \<or> prefix group_sep s"
  shows "\<not> prefix group_sep (c # g @ s)"
proof (cases g)
  case Nil
  from assms(2) show ?thesis
  proof
    assume "s = []"
    then show ?thesis by (simp add: Nil group_sep_eq)
  next
    assume "prefix group_sep s"
    then obtain r where "s = group_sep @ r" by (auto simp: prefix_def)
    then show ?thesis by (simp add: Nil group_sep_eq)
  qed
next
  case (Cons d g')
  with assms(1) have "d \<noteq> 61" by (auto simp: plain_def)
  then show ?thesis by (simp add: Cons group_sep_eq)
qed

lemma split_from_plain:
  assumes "plain g" and "s = [] \<or> prefix group_sep s"
  shows "split_from group_sep cur (g @ s) = split_from group_sep (cur @ g) s"
  using assms(1)
proof (induction g arbitrary: cur)
  case Nil
  show ?case by simp
next
  case (Cons c g)
  have np: "\<not> prefix group_sep (c # g @ s)"
    using Cons.prems assms(2) by (rule not_prefix_group_sep)
  have pg: "plain g" using Cons.prems by (simp add: plain_def)
  have "split_from group_sep cur ((c # g) @ s) = split_from group_sep (cur @ [c]) (g @ s)"
    using np by (subst split_from.simps) simp
  also have "\<dots> = split_from group_sep ((cur @ [c]) @ g) s"
    by (rule Cons.IH [OF pg])
  finally show ?case by simp
qed

lemma split_from_sections:
  assumes "\<forall>g \<in> set (g0 # gs). plain g"
  shows "split_from group_sep cur (join group_sep (g0 # gs)) = (cur @ g0) # gs"
  using assms
proof (induction gs arbitrary: cur g0)
  case Nil
  then have "plain g0" by simp
  from split_from_plain [OF this, of "[]" cur] show ?case
    by (simp add: split_from.simps [of _ _ "[]"])
next
  case (Cons g1 gs)
  then have p0: "plain g0" and rest: "\<forall>g \<in> set (g1 # gs). plain g" by simp_all
  let ?r = "join group_sep (g1 # gs)"
  have "split_from group_sep cur (join group_sep (g0 # g1 # gs)) =
          split_from group_sep cur (g0 @ (group_sep @ ?r))"
    by simp
  also have "\<dots> = split_from group_sep (cur @ g0) (group_sep @ ?r)"
    by (rule split_from_plain [OF p0]) simp
  also have "\<dots> = (cur @ g0) # split_from group_sep [] ?r"
    by (subst split_from.simps) (simp add: group_sep_eq)
  also have "split_from group_sep [] ?r = ([] @ g1) # gs"
    by (rule Cons.IH [OF rest])
  finally show ?case by simp
qed

lemma str_split_sections:
  "gs \<noteq> [] \<Longrightarrow> \<forall>g \<in> set gs. plain g \<Longrightarrow> str_split (join group_sep gs) group_sep = gs"
  unfolding str_split_def by (cases gs) (simp_all add: split_from_sections del: join.simps)

lemma send_parts_all_ok:
  "\<forall>k. tr k = PostOk \<Longrightarrow> send_parts tr k bound sent parts = (Inr True, sent @ parts)"
  by (induction parts arbitrary: k bound sent) simp_all

section \<open>The rendered sections contain no "="\<close>

lemma plain_Nil [simp]: "plain []"
  by (simp add: plain_def)

lemma plain_Cons [simp]: "plain (c # s) \<longleftrightarrow> c \<noteq> 61 \<and> plain s"
  by (auto simp: plain_def)

lemma plain_append [simp]: "plain (a @ b) \<longleftrightarrow> plain a \<and> plain b"
  by (auto simp: plain_def)

lemma plain_replicate: "c \<noteq> 61 \<Longrightarrow> plain (replicate n c)"
  by (simp add: plain_def)

lemma plain_digits: "plain (digits n)"
proof (induction n rule: digits.induct)
  case (1 n)
  show ?case
  proof (cases "n < 10")
    case True
    then show ?thesis by (simp add: digits_lt_10)
  next
    case False
    have "n mod 10 < 10" by simp
    then have "48 + n mod 10 \<noteq> 61" by linarith
    with "1.IH" False show ?thesis by (subst digits.simps) simp
  qed
qed

lemma plain_str_int: "plain (str_int z)"
  by (simp add: str_int_def plain_digits)

lemma plain_fmt_02d: "plain (fmt_02d z)"
  by (simp add: fmt_02d_def Let_def plain_str_int plain_replicate)

lemma plain_format_slot_time: "plain (format_slot_time s)"
  by (simp add: format_slot_time_def Let_def plain_fmt_02d ascii_def)

lemma plain_unit_words: "plain hodyna" "plain hodyny" "plain hodyn"
  by (simp_all add: hodyna_def hodyny_def hodyn_def)

lemma plain_format_hours: "\<forall>x. plain (fr x) \<Longrightarrow> plain (format_hours fr h)"
  by (cases h) (simp_all add: format_hours_def plain_str_int plain_unit_words)

lemma plain_period_line:
  "\<forall>x. plain (fr x) \<Longrightarrow> plain (start p) \<Longrightarrow> plain (finish p) \<Longrightarrow> plain (period_line fr p)"
  by (simp add: period_line_def plain_format_hours emoji_on_def emoji_off_def ascii_def)

lemma plain_join: "plain sep \<Longrightarrow> \<forall>x \<in> set xs. plain x \<Longrightarrow> plain (join sep xs)"
  by (induction sep xs rule: join.induct) simp_all

lemma plain_str_replace: "plain new \<Longrightarrow> plain s \<Longrightarrow> plain (str_replace old new s)"
proof (induction old new s rule: str_replace.induct)
  case (1 old new s)
  show ?case
  proof (cases "old = []")
    case True
    have "plain (concat (map (\<lambda>c. c # new) s))"
      using "1.prems" by (induction s) simp_all
    with True "1.prems" show ?thesis by (subst str_replace.simps) simp
  next
    case False
    show ?thesis
    proof (cases "s = []")
      case True
      then show ?thesis using False by (subst str_replace.simps) simp
    next
      case ne: False
      then obtain c r where s: "s = c # r" by (cases s) auto
      show ?thesis
      proof (cases "prefix old s")
        case True
        have "plain (drop (length old) s)"
          using "1.prems"(2) by (auto simp: plain_def dest: in_set_dropD)
        from "1.IH"(1) [OF False ne True "1.prems"(1) this] "1.prems"(1) False ne True
        show ?thesis by (subst str_replace.simps) simp
      next
        case np: False
        have "plain (tl s)" "hd s \<noteq> 61" using "1.prems"(2) by (simp_all add: s)
        with "1.IH"(2) [OF False ne np "1.prems"(1)] False ne np
        show ?thesis by (subst str_replace.simps) simp
      qed
    qed
  qed
qed

lemma plain_day_name: "map_of DAYS_UA w = Some n \<Longrightarrow> plain n"
  by (auto simp: DAYS_UA_def split: if_splits)

lemma plain_header_line:
  "map_of DAYS_UA (weekday date) = Some n \<Longrightarrow> plain grp \<Longrightarrow>
     plain (header_line date grp is_today n)"
  by (simp add: header_line_def plain_day_name plain_fmt_02d plain_str_replace
      header_prefix_def sohodni_def zavtra_def header_group_def ascii_def)

lemma plain_format_schedule_message:
  assumes "format_schedule_message fr sched date grp is_today = Inr m"
    and "\<forall>x. plain (fr x)" and "plain grp"
    and "\<forall>p \<in> set sched. plain (start p) \<and> plain (finish p)"
  shows "plain m"
proof -
  from assms(1) obtain n where n: "map_of DAYS_UA (weekday date) = Some n"
    by (cases "map_of DAYS_UA (weekday date)") (simp_all add: format_schedule_message_def)
  have nl: "plain newline" by (simp add: newline_def ascii_def)
  have "\<forall>l \<in> set ((header_line date grp is_today n # map (period_line fr) sched) @
          [[], svitlo_ye @ format_hours fr (PFloat (hours_on sched)),
           svitla_nema @ format_hours fr (PFloat (hours_off sched))]). plain l"
    using assms(2-4) n
    by (auto simp: plain_header_line plain_period_line plain_format_hours
        svitlo_ye_def svitla_nema_def)
  from plain_join [OF nl this] assms(1) show ?thesis
    unfolding format_schedule_message_lines [OF n] by simp
qed

lemma plain_build_schedule: "p \<in> set (build_schedule d) \<Longrightarrow> plain (start p) \<and> plain (finish p)"
proof -
  assume p: "p \<in> set (build_schedule d)"
  have "slots_of d \<noteq> []" using length_slots_of [of d] by auto
  from merge_slots_spans [OF this] obtain spans where
    "build_schedule d = map period_of spans" unfolding build_schedule_def by blast
  with p obtain sp where "p = period_of sp" by auto
  then show ?thesis
    by (cases sp) (simp add: period_of_def plain_format_slot_time)
qed

lemma bind_Inr: "bind m f = Inr y \<longleftrightarrow> (\<exists>x. m = Inr x \<and> f x = Inr y)"
  by (cases m) (simp_all add: bind_def)

lemma plain_day_message:
  assumes "day_message env fd grp p = Inr (Some m)"
    and "\<forall>x. plain (float_repr env x)" and "plain grp"
  shows "plain m"
proof -
  obtain idx day_ts where p: "p = (idx, day_ts)" by (cases p) auto
  from assms(1) obtain day_data d date where
    "day_data = JDict d"
    "format_schedule_message (float_repr env) (build_schedule d) date grp (idx = 0) = Inr m"
    unfolding day_message_def p prod.case
    by (auto simp: bind_Inr Let_def split: if_splits json.splits)
  from plain_format_schedule_message [OF this(2) assms(2,3)] plain_build_schedule
  show ?thesis by blast
qed

lemma map_err_Inr:
  "map_err f xs = Inr rs \<Longrightarrow> length rs = length xs \<and> (\<forall>r \<in> set rs. \<exists>x \<in> set xs. f x = Inr r)"
proof (induction xs arbitrary: rs)
  case Nil
  then show ?case by simp
next
  case (Cons x xs)
  from Cons.prems obtain y ys where
    y: "f x = Inr y" and ys: "map_err f xs = Inr ys" and rs: "rs = y # ys"
    by (auto simp: bind_Inr)
  from Cons.IH [OF ys] y show ?case by (auto simp: rs)
qed

lemma collect_Inr:
  assumes "collect f xs = Inr ys"
  shows "length ys \<le> length xs \<and> (\<forall>y \<in> set ys. \<exists>x \<in> set xs. f x = Inr (Some y))"
proof -
  from assms obtain rs where rs: "map_err f xs = Inr rs" and ys: "ys = List.map_filter id rs"
    by (auto simp: collect_def bind_Inr)
  have "length ys \<le> length rs"
    unfolding ys by (simp add: map_filter_def)
  moreover have "\<forall>y \<in> set ys. Some y \<in> set rs"
    unfolding ys by (auto simp: map_filter_def)
  ultimately show ?thesis using map_err_Inr [OF rs] by fastforce
qed

lemma plain_group_message:
  assumes "group_message env fd days grp = Inr (Some g)"
    and "\<forall>x. plain (float_repr env x)" and "plain grp"
  shows "plain g"
proof -
  from assms(1) obtain ms where
    ms: "collect (day_message env fd grp) (enumerate 0 (take 2 days)) = Inr ms"
    and g: "g = join day_sep ms"
    by (auto simp: group_message_def bind_Inr split: if_splits)
  have "\<forall>m \<in> set ms. plain m"
    using collect_Inr [OF ms] plain_day_message [OF _ assms(2,3)] by blast
  moreover have "plain day_sep" by (simp add: day_sep_def ascii_def)
  ultimately show ?thesis unfolding g by (simp add: plain_join)
qed

lemma plain_groups: "grp \<in> set groups \<Longrightarrow> plain grp"
  by (auto simp: groups_def ascii_def)

lemma all_messages_sections:
  assumes "all_messages env fd = Inr gs" and "\<forall>x. plain (float_repr env x)"
  shows "length gs \<le> 2 \<and> (\<forall>g \<in> set gs. plain g)"
proof -
  from assms(1) obtain days where
    gs: "collect (group_message env fd days) groups = Inr gs"
    by (auto simp: all_messages_def bind_Inr)
  from collect_Inr [OF gs] have "length gs \<le> 2"
    and "\<forall>g \<in> set gs. \<exists>grp \<in> set groups. group_message env fd days grp = Inr (Some g)"
    by (simp_all add: groups_def)
  then show ?thesis
    using plain_group_message [OF _ assms(2)] plain_groups by blast
qed

lemma plain_repr_half: "plain (repr_half x)"
  by (simp add: repr_half_def plain_str_int ascii_def)

section \<open>The delivery chunker\<close>

text \<open>
  C6. A message of at most 4000 characters is sent as one part. A longer message is split
  at the group separator: joining the parts with the separator gives the message back,
  and no part contains the separator. For the report that \<open>format_full_message\<close> joins
  from its group sections (no text that is rendered contains "=", as long as \<^verbatim>\<open>repr\<close> of
  a float does not), the parts of a report over the limit are exactly the group sections,
  at most two: a two-group report is sent as two payloads, one per group. With the
  credentials set and a transport that accepts every request, the payloads posted are
  these parts.
\<close>

theorem message_parts_chunks:
  "(length message \<le> 4000 \<longrightarrow> message_parts message = [message]) \<and>
   (4000 < length message \<longrightarrow>
      message_parts message = str_split message group_sep \<and>
      join group_sep (message_parts message) = message \<and>
      (\<forall>part \<in> set (message_parts message). \<not> sublist group_sep part)) \<and>
   (all_messages env fact_data = Inr sections \<and> (\<forall>x. plain (float_repr env x)) \<and>
    4000 < length (join group_sep sections) \<longrightarrow>
      length sections \<le> 2 \<and> message_parts (join group_sep sections) = sections) \<and>
   (\<not> unset token \<and> \<not> unset channel \<and> (\<forall>k. tr k = PostOk) \<longrightarrow>
      send_telegram_message token channel tr message = (Inr True, message_parts message))"
proof (intro conjI impI)
  assume "length message \<le> 4000"
  then show "message_parts message = [message]"
    by (simp add: message_parts_def max_length_def)
next
  assume long: "4000 < length message"
  then show split: "message_parts message = str_split message group_sep"
    by (simp add: message_parts_def max_length_def)
  show "join group_sep (message_parts message) = message"
    unfolding split by (rule join_str_split)
  have "group_sep \<noteq> []" by (simp add: group_sep_eq)
  then show "\<forall>part \<in> set (message_parts message). \<not> sublist group_sep part"
    unfolding split by (rule str_split_no_sep)
next
  assume a: "all_messages env fact_data = Inr sections \<and> (\<forall>x. plain (float_repr env x)) \<and>
    4000 < length (join group_sep sections)"
  then have secs: "length sections \<le> 2" "\<forall>g \<in> set sections. plain g"
    using all_messages_sections [of env fact_data sections] by simp_all
  from a have ne: "sections \<noteq> []" by auto
  show "length sections \<le> 2" by (rule secs(1))
  from a have "message_parts (join group_sep sections) = str_split (join group_sep sections) group_sep"
    by (simp add: message_parts_def max_length_def)
  also have "\<dots> = sections"
    using ne secs(2) by (rule str_split_sections)
  finally show "message_parts (join group_sep sections) = sections" .
next
  assume "\<not> unset token \<and> \<not> unset channel \<and> (\<forall>k. tr k = PostOk)"
  then show "send_telegram_message token channel tr message = (Inr True, message_parts message)"
    by (simp add: send_telegram_message_def send_parts_all_ok)
qed

section \<open>The run\<close>

text \<open>
  C8 fails on the code. With the credentials set, when the first \<^verbatim>\<open>requests.post\<close> of a run
  raises, the handler of \<open>send_telegram_message\<close> reads the unassigned variable
  \<^verbatim>\<open>response\<close>, and UnboundLocalError leaves \<open>send_telegram_message\<close> and \<open>main\<close>. A feed
  that is a JSON list leaves \<open>main\<close> with AttributeError.
\<close>

theorem post_raises_escapes:
  "send_telegram_message (Some (ascii ''T'')) (Some (ascii ''C'')) (\<lambda>k. PostRaises)
     (ascii ''report'') = (Inl UnboundLocalError, [ascii ''report'']) \<and>
   raised (main demo_env (Some (ascii ''T'')) (Some (ascii ''C'')) (\<lambda>k. PostRaises)
     (FetchJson demo_doc) None) = Some UnboundLocalError \<and>
   raised (main demo_env (Some (ascii ''T'')) (Some (ascii ''C'')) (\<lambda>k. PostOk)
     (FetchJson (JList [demo_doc])) None) = Some AttributeError"
  by code_simp

lemma main_unchanged:
  assumes "truthy (fetch_data outcome)"
    and "content_hash_of (fetch_data outcome) = Inr content_hash"
    and "content_hash = get_cached_hash file"
  shows "main env token channel tr outcome file = \<lparr>marker = file, posts = [], raised = None\<rparr>"
  using assms by (simp add: main_def Let_def)

lemma main_changed:
  assumes "truthy (fetch_data outcome)"
    and "content_hash_of (fetch_data outcome) = Inr (JStr h)"
    and "JStr h \<noteq> get_cached_hash file"
    and "encodable env h"
    and "format_full_message env (fetch_data outcome) = Inr (Some message)"
    and "message \<noteq> []"
  shows "main env token channel tr outcome file =
           (case send_telegram_message token channel tr message of
              (Inl e, sent) \<Rightarrow> \<lparr>marker = file, posts = sent, raised = Some e\<rparr>
            | (Inr True, sent) \<Rightarrow> \<lparr>marker = Some h, posts = sent, raised = None\<rparr>
            | (Inr False, sent) \<Rightarrow> \<lparr>marker = file, posts = sent, raised = None\<rparr>)"
  using assms
  by (simp add: main_def Let_def slice16_def bind_def save_hash_def
      split: prod.split sum.split bool.split)

lemma main_no_message:
  assumes "truthy (fetch_data outcome)"
    and "content_hash_of (fetch_data outcome) = Inr (JStr h)"
    and "format_full_message env (fetch_data outcome) = Inr None \<or>
         format_full_message env (fetch_data outcome) = Inr (Some [])"
  shows "main env token channel tr outcome file = \<lparr>marker = file, posts = [], raised = None\<rparr>"
  using assms by (auto simp: main_def Let_def slice16_def bind_def)

lemma main_no_message_any_hash:
  assumes "truthy (fetch_data outcome)"
    and "content_hash_of (fetch_data outcome) = Inr content_hash"
    and "format_full_message env (fetch_data outcome) = Inr None \<or>
         format_full_message env (fetch_data outcome) = Inr (Some [])"
  shows "posts (main env token channel tr outcome file) = [] \<and>
         marker (main env token channel tr outcome file) = file"
proof (cases "slice16 content_hash")
  case (Inl e)
  with assms(1,2) show ?thesis by (simp add: main_def Let_def bind_def)
next
  case (Inr x)
  with assms show ?thesis by (auto simp: main_def Let_def bind_def)
qed

text \<open>
  C1, amended. In a run that fetched a document with a fingerprint: when the fingerprint
  equals the cached hash read from the marker file, nothing is posted and the marker file
  is unchanged. When it differs, is a string that the marker file's encoding can encode,
  and \<open>format_full_message\<close> returns a non-empty message, the payloads posted are those of
  \<open>send_telegram_message\<close> on that message, and the marker file is written with the new
  fingerprint if and only if \<open>send_telegram_message\<close> returned True; when it returned False
  or raised, the marker file is unchanged. When the fingerprint differs and
  \<open>format_full_message\<close> returns \<^verbatim>\<open>None\<close> or the empty string, nothing is posted and the
  marker file is unchanged.
\<close>

theorem revision_gate:
  assumes "truthy (fetch_data outcome)"
    and "content_hash_of (fetch_data outcome) = Inr content_hash"
  shows
    "(content_hash = get_cached_hash file \<longrightarrow>
        main env token channel tr outcome file = \<lparr>marker = file, posts = [], raised = None\<rparr>) \<and>
     (content_hash \<noteq> get_cached_hash file \<and> content_hash = JStr h \<and> encodable env h \<and>
      format_full_message env (fetch_data outcome) = Inr (Some message) \<and> message \<noteq> [] \<longrightarrow>
        main env token channel tr outcome file =
          (case send_telegram_message token channel tr message of
             (Inl e, sent) \<Rightarrow> \<lparr>marker = file, posts = sent, raised = Some e\<rparr>
           | (Inr True, sent) \<Rightarrow> \<lparr>marker = Some h, posts = sent, raised = None\<rparr>
           | (Inr False, sent) \<Rightarrow> \<lparr>marker = file, posts = sent, raised = None\<rparr>) \<and>
        posts (main env token channel tr outcome file) =
          snd (send_telegram_message token channel tr message) \<and>
        marker (main env token channel tr outcome file) =
          (if fst (send_telegram_message token channel tr message) = Inr True then Some h
           else file)) \<and>
     (content_hash \<noteq> get_cached_hash file \<and>
      (format_full_message env (fetch_data outcome) = Inr None \<or>
       format_full_message env (fetch_data outcome) = Inr (Some [])) \<longrightarrow>
        posts (main env token channel tr outcome file) = [] \<and>
        marker (main env token channel tr outcome file) = file)"
proof (intro conjI impI)
  assume "content_hash = get_cached_hash file"
  with assms show "main env token channel tr outcome file =
      \<lparr>marker = file, posts = [], raised = None\<rparr>"
    by (rule main_unchanged)
next
  assume a: "content_hash \<noteq> get_cached_hash file \<and> content_hash = JStr h \<and> encodable env h \<and>
      format_full_message env (fetch_data outcome) = Inr (Some message) \<and> message \<noteq> []"
  then have ch: "content_hash = JStr h" and ne: "JStr h \<noteq> get_cached_hash file"
    and en: "encodable env h"
    and f: "format_full_message env (fetch_data outcome) = Inr (Some message)" and me: "message \<noteq> []"
    by blast+
  show m: "main env token channel tr outcome file =
           (case send_telegram_message token channel tr message of
              (Inl e, sent) \<Rightarrow> \<lparr>marker = file, posts = sent, raised = Some e\<rparr>
            | (Inr True, sent) \<Rightarrow> \<lparr>marker = Some h, posts = sent, raised = None\<rparr>
            | (Inr False, sent) \<Rightarrow> \<lparr>marker = file, posts = sent, raised = None\<rparr>)"
    using assms(1) assms(2) [unfolded ch] ne en f me by (rule main_changed)
  show "posts (main env token channel tr outcome file) =
          snd (send_telegram_message token channel tr message)"
    unfolding m by (simp split: prod.split sum.split bool.split)
  show "marker (main env token channel tr outcome file) =
          (if fst (send_telegram_message token channel tr message) = Inr True then Some h
           else file)"
    unfolding m by (simp split: prod.split sum.split bool.split)
next
  assume b: "content_hash \<noteq> get_cached_hash file \<and>
      (format_full_message env (fetch_data outcome) = Inr None \<or>
       format_full_message env (fetch_data outcome) = Inr (Some []))"
  then have f: "format_full_message env (fetch_data outcome) = Inr None \<or>
       format_full_message env (fetch_data outcome) = Inr (Some [])"
    by blast
  from main_no_message_any_hash [OF assms f]
  show "posts (main env token channel tr outcome file) = []"
    and "marker (main env token channel tr outcome file) = file"
    by blast+
qed

text \<open>
  C1 as stated fails: the fingerprint "h1" differs from the cached hash (no marker file),
  the transport would accept every request, and yet nothing is posted and the marker is
  not written, because the feed has no data for the configured groups.
\<close>

theorem revision_gate_counterexample:
  "content_hash_of other_groups_doc = Inr (JStr (ascii ''h1'')) \<and>
   get_cached_hash None \<noteq> JStr (ascii ''h1'') \<and>
   main demo_env (Some (ascii ''T'')) (Some (ascii ''C'')) (\<lambda>k. PostOk)
     (FetchJson other_groups_doc) None = \<lparr>marker = None, posts = [], raised = None\<rparr>"
  by code_simp

text \<open>
  The document \<open>demo_doc\<close>: with the marker "h1 " (read as "h1") nothing happens; with the
  marker "h0" the message is posted, and the marker becomes "h1" when the transport
  accepts it and stays "h0" when the transport answers with an error status. The document
  \<open>empty_fact_doc\<close>, for which \<open>format_full_message\<close> returns \<^verbatim>\<open>None\<close>: with the marker "h0"
  nothing is posted and the marker stays "h0".
\<close>

theorem revision_gate_witness:
  "truthy (fetch_data (FetchJson demo_doc)) \<and>
   content_hash_of (fetch_data (FetchJson demo_doc)) = Inr (JStr (ascii ''h1'')) \<and>
   JStr (ascii ''h1'') = get_cached_hash (Some (ascii ''h1 '')) \<and>
   main demo_env (Some (ascii ''T'')) (Some (ascii ''C'')) (\<lambda>k. PostOk) (FetchJson demo_doc)
     (Some (ascii ''h1 '')) = \<lparr>marker = Some (ascii ''h1 ''), posts = [], raised = None\<rparr> \<and>
   JStr (ascii ''h1'') \<noteq> get_cached_hash (Some (ascii ''h0'')) \<and>
   encodable demo_env (ascii ''h1'') \<and>
   (\<exists>message. format_full_message demo_env (fetch_data (FetchJson demo_doc)) = Inr (Some message) \<and>
      message \<noteq> [] \<and>
      main demo_env (Some (ascii ''T'')) (Some (ascii ''C'')) (\<lambda>k. PostOk)
        (FetchJson demo_doc) (Some (ascii ''h0'')) =
        \<lparr>marker = Some (ascii ''h1''), posts = [message], raised = None\<rparr> \<and>
      main demo_env (Some (ascii ''T'')) (Some (ascii ''C'')) (\<lambda>k. PostBadStatus)
        (FetchJson demo_doc) (Some (ascii ''h0'')) =
        \<lparr>marker = Some (ascii ''h0''), posts = [message], raised = None\<rparr>) \<and>
   truthy (fetch_data (FetchJson empty_fact_doc)) \<and>
   content_hash_of (fetch_data (FetchJson empty_fact_doc)) = Inr (JStr (ascii ''h1'')) \<and>
   format_full_message demo_env (fetch_data (FetchJson empty_fact_doc)) = Inr None \<and>
   posts (main demo_env (Some (ascii ''T'')) (Some (ascii ''C'')) (\<lambda>k. PostOk)
     (FetchJson empty_fact_doc) (Some (ascii ''h0''))) = [] \<and>
   marker (main demo_env (Some (ascii ''T'')) (Some (ascii ''C'')) (\<lambda>k. PostOk)
     (FetchJson empty_fact_doc) (Some (ascii ''h0''))) = Some (ascii ''h0'')"
proof -
  let ?T = "Some (ascii ''T'')" and ?C = "Some (ascii ''C'')"
  have t: "truthy (fetch_data (FetchJson demo_doc))"
    by code_simp
  have c: "content_hash_of (fetch_data (FetchJson demo_doc)) = Inr (JStr (ascii ''h1''))"
    by code_simp
  have same: "JStr (ascii ''h1'') = get_cached_hash (Some (ascii ''h1 ''))"
    by code_simp
  have diff: "JStr (ascii ''h1'') \<noteq> get_cached_hash (Some (ascii ''h0''))"
    by code_simp
  have en: "encodable demo_env (ascii ''h1'')"
    by code_simp
  have "case format_full_message demo_env (fetch_data (FetchJson demo_doc)) of
          Inr (Some m) \<Rightarrow> m \<noteq> [] \<and> length m \<le> 4000
        | _ \<Rightarrow> False"
    by code_simp
  then obtain message where m:
    "format_full_message demo_env (fetch_data (FetchJson demo_doc)) = Inr (Some message)"
    "message \<noteq> []" "length message \<le> 4000"
    by (auto split: sum.splits option.splits)
  have u: "\<not> unset ?T" "\<not> unset ?C"
    by (simp_all add: unset_def ascii_def)
  have ok: "send_telegram_message ?T ?C (\<lambda>k. PostOk) message = (Inr True, [message])"
    using u m(3) by (simp add: send_telegram_message_def message_parts_def max_length_def)
  have bad: "send_telegram_message ?T ?C (\<lambda>k. PostBadStatus) message = (Inr False, [message])"
    using u m(3) by (simp add: send_telegram_message_def message_parts_def max_length_def)
  from revision_gate [OF t c, of "Some (ascii ''h1 '')" demo_env ?T ?C "\<lambda>k. PostOk"] same
  have 1: "main demo_env ?T ?C (\<lambda>k. PostOk) (FetchJson demo_doc) (Some (ascii ''h1 '')) =
      \<lparr>marker = Some (ascii ''h1 ''), posts = [], raised = None\<rparr>"
    by blast
  from revision_gate
    [OF t c, of "Some (ascii ''h0'')" demo_env ?T ?C "\<lambda>k. PostOk" "ascii ''h1''" message]
    diff en m(1,2)
  have 2: "main demo_env ?T ?C (\<lambda>k. PostOk) (FetchJson demo_doc) (Some (ascii ''h0'')) =
      \<lparr>marker = Some (ascii ''h1''), posts = [message], raised = None\<rparr>"
    unfolding ok by simp
  from revision_gate
    [OF t c, of "Some (ascii ''h0'')" demo_env ?T ?C "\<lambda>k. PostBadStatus" "ascii ''h1''" message]
    diff en m(1,2)
  have 3: "main demo_env ?T ?C (\<lambda>k. PostBadStatus) (FetchJson demo_doc) (Some (ascii ''h0'')) =
      \<lparr>marker = Some (ascii ''h0''), posts = [message], raised = None\<rparr>"
    unfolding bad by simp
  have t': "truthy (fetch_data (FetchJson empty_fact_doc))"
    by code_simp
  have c': "content_hash_of (fetch_data (FetchJson empty_fact_doc)) = Inr (JStr (ascii ''h1''))"
    by code_simp
  have n: "format_full_message demo_env (fetch_data (FetchJson empty_fact_doc)) = Inr None"
    by code_simp
  from revision_gate
    [OF t' c', of "Some (ascii ''h0'')" demo_env ?T ?C "\<lambda>k. PostOk"] diff n
  have 4: "posts (main demo_env ?T ?C (\<lambda>k. PostOk) (FetchJson empty_fact_doc)
      (Some (ascii ''h0''))) = []"
    and 5: "marker (main demo_env ?T ?C (\<lambda>k. PostOk) (FetchJson empty_fact_doc)
      (Some (ascii ''h0''))) = Some (ascii ''h0'')"
    by blast+
  from t c same 1 diff en m(1,2) 2 3 t' c' n 4 5 show ?thesis
    by (intro conjI exI [of _ message]) assumption+
qed

lemma map_err_all:
  "\<forall>x \<in> set xs. f x = Inr y \<Longrightarrow> map_err f xs = Inr (replicate (length xs) y)"
  by (induction xs) (simp_all add: bind_def)

lemma collect_all_None: "\<forall>x \<in> set xs. f x = Inr None \<Longrightarrow> collect f xs = Inr []"
  using map_err_all [of xs f None] by (simp add: collect_def bind_def map_filter_def)

lemma dict_get_Nil: "dict_get [] key dflt = dflt"
  by (simp add: dict_get_def)

text \<open>
  C10. When \<open>fact.data\<close> is a non-empty mapping whose keys \<^verbatim>\<open>int\<close> accepts, and each of the
  two earliest days is a mapping without (truthy) data for either configured group,
  \<open>format_full_message\<close> returns the empty string; \<open>main\<close> then posts nothing and leaves the
  marker file unchanged, although the fingerprint differs from the cached hash.
\<close>

theorem no_group_data_no_delivery:
  assumes "dict_get doc (ascii ''fact'') (JDict []) = JDict fact_obj"
    and "dict_get fact_obj (ascii ''data'') (JDict []) = JDict fact_data"
    and "fact_data \<noteq> []"
    and "sorted_days_of env (map fst fact_data) = Inr sorted_days"
    and "\<forall>day_ts \<in> set (take 2 sorted_days). \<forall>grp \<in> set groups.
           \<exists>day_groups. map_of fact_data day_ts = Some (JDict day_groups) \<and>
                        \<not> truthy (dict_get day_groups grp JNull)"
  shows "format_full_message env (JDict doc) = Inr (Some []) \<and>
         (content_hash_of (JDict doc) = Inr (JStr h) \<and> JStr h \<noteq> get_cached_hash file \<longrightarrow>
            main env token channel tr (FetchJson (JDict doc)) file =
              \<lparr>marker = file, posts = [], raised = None\<rparr>)"
proof -
  have day: "day_message env fact_data grp p = Inr None"
    if "grp \<in> set groups" and "p \<in> set (enumerate 0 (take 2 sorted_days))" for grp p
  proof -
    obtain idx day_ts where p: "p = (idx, day_ts)" by (cases p) auto
    with that(2) have "day_ts \<in> set (take 2 sorted_days)"
      by (auto simp: enumerate_eq_zip dest: set_zip_rightD)
    with assms(5) that(1) obtain day_groups where
      "map_of fact_data day_ts = Some (JDict day_groups)"
      "\<not> truthy (dict_get day_groups grp JNull)"
      by blast
    then show ?thesis
      by (simp add: day_message_def p dict_index_def json_get_def bind_def)
  qed
  have grp: "group_message env fact_data sorted_days grp = Inr None"
    if "grp \<in> set groups" for grp
    using collect_all_None [of "enumerate 0 (take 2 sorted_days)" "day_message env fact_data grp"]
      day [OF that]
    by (simp add: group_message_def bind_def)
  have "collect (group_message env fact_data sorted_days) groups = Inr []"
    using grp by (intro collect_all_None) simp
  then have all: "all_messages env fact_data = Inr []"
    by (simp add: all_messages_def assms(4) bind_def)
  have f: "format_full_message env (JDict doc) = Inr (Some [])"
    by (simp add: format_full_message_def json_get_def bind_def assms(1,2,3) all)
  have "doc \<noteq> []"
    using assms(1,2,3) by (auto simp: dict_get_Nil)
  then have t: "truthy (fetch_data (FetchJson (JDict doc)))"
    by (simp add: fetch_data_def)
  have "main env token channel tr (FetchJson (JDict doc)) file =
          \<lparr>marker = file, posts = [], raised = None\<rparr>"
    if "content_hash_of (JDict doc) = Inr (JStr h)"
    using t that f by (intro main_no_message [of _ h]) (simp_all add: fetch_data_def)
  with f show ?thesis by blast
qed

text \<open>The document whose only day has data for the group GPV1.1, with the marker "h0".\<close>

theorem no_group_data_no_delivery_witness:
  "other_groups_fact_data \<noteq> [] \<and>
   sorted_days_of demo_env (map fst other_groups_fact_data) = Inr [ascii ''1762120800''] \<and>
   format_full_message demo_env other_groups_doc = Inr (Some []) \<and>
   content_hash_of other_groups_doc = Inr (JStr (ascii ''h1'')) \<and>
   JStr (ascii ''h1'') \<noteq> get_cached_hash (Some (ascii ''h0'')) \<and>
   main demo_env (Some (ascii ''T'')) (Some (ascii ''C'')) (\<lambda>k. PostOk)
     (FetchJson other_groups_doc) (Some (ascii ''h0'')) =
     \<lparr>marker = Some (ascii ''h0''), posts = [], raised = None\<rparr>"
proof -
  let ?doc = "[(ascii ''meta'', JDict [(ascii ''contentHash'', JStr (ascii ''h1''))]),
               (ascii ''fact'', JDict [(ascii ''data'', JDict other_groups_fact_data)])]"
  let ?fact = "[(ascii ''data'', JDict other_groups_fact_data)]"
  have 1: "dict_get ?doc (ascii ''fact'') (JDict []) = JDict ?fact"
    by (simp add: dict_get_def ascii_def)
  have 2: "dict_get ?fact (ascii ''data'') (JDict []) = JDict other_groups_fact_data"
    by (simp add: dict_get_def)
  have 3: "other_groups_fact_data \<noteq> []"
    by (simp add: other_groups_fact_data_def)
  have 4: "sorted_days_of demo_env (map fst other_groups_fact_data) = Inr [ascii ''1762120800'']"
    by code_simp
  have 5: "\<forall>day_ts \<in> set (take 2 [ascii ''1762120800'']). \<forall>grp \<in> set groups.
           \<exists>day_groups. map_of other_groups_fact_data day_ts = Some (JDict day_groups) \<and>
                        \<not> truthy (dict_get day_groups grp JNull)"
    by (simp add: other_groups_fact_data_def groups_def dict_get_def ascii_def)
  have c: "content_hash_of other_groups_doc = Inr (JStr (ascii ''h1''))"
    by code_simp
  have d: "JStr (ascii ''h1'') \<noteq> get_cached_hash (Some (ascii ''h0''))"
    by code_simp
  from no_group_data_no_delivery
    [OF 1 2 3 4 5, of "ascii ''h1''" "Some (ascii ''h0'')" "Some (ascii ''T'')"
       "Some (ascii ''C'')" "\<lambda>k. PostOk"] c d
  have "format_full_message demo_env other_groups_doc = Inr (Some [])"
    and "main demo_env (Some (ascii ''T'')) (Some (ascii ''C'')) (\<lambda>k. PostOk)
     (FetchJson other_groups_doc) (Some (ascii ''h0'')) =
     \<lparr>marker = Some (ascii ''h0''), posts = [], raised = None\<rparr>"
    unfolding other_groups_doc_def by blast+
  with 3 4 c d show ?thesis by (intro conjI) assumption+
qed


text \<open>
  A short message; and the report of the two-day, two-group feed above, which is longer
  than 4000 characters and is posted as its two group sections.
\<close>

theorem message_parts_chunks_witness:
  "length (ascii ''abc'') \<le> 4000 \<and> message_parts (ascii ''abc'') = [ascii ''abc''] \<and>
   (\<exists>sections. all_messages demo_env flicker_fact_data = Inr sections \<and>
      (\<forall>x. plain (float_repr demo_env x)) \<and>
      4000 < length (join group_sep sections) \<and>
      length sections = 2 \<and>
      message_parts (join group_sep sections) = sections \<and>
      (\<forall>part \<in> set sections. \<not> sublist group_sep part) \<and>
      \<not> unset (Some (ascii ''T'')) \<and> \<not> unset (Some (ascii ''C'')) \<and>
      send_telegram_message (Some (ascii ''T'')) (Some (ascii ''C'')) (\<lambda>k. PostOk)
        (join group_sep sections) = (Inr True, sections))"
proof -
  have "case all_messages demo_env flicker_fact_data of
          Inl e \<Rightarrow> False
        | Inr sections \<Rightarrow> length sections = 2 \<and> 4000 < length (join group_sep sections)"
    by code_simp
  then obtain sections where s:
    "all_messages demo_env flicker_fact_data = Inr sections" "length sections = 2"
    "4000 < length (join group_sep sections)"
    by (cases "all_messages demo_env flicker_fact_data") auto
  have p: "\<forall>x. plain (float_repr demo_env x)"
    by (simp add: demo_env_def plain_repr_half)
  have u: "\<not> unset (Some (ascii ''T''))" "\<not> unset (Some (ascii ''C''))"
    by (simp_all add: unset_def ascii_def)
  have short: "length (ascii ''abc'') \<le> 4000"
    by (simp add: ascii_def)
  from message_parts_chunks [of "ascii ''abc''" demo_env flicker_fact_data sections] short
  have 1: "message_parts (ascii ''abc'') = [ascii ''abc'']" by blast
  from message_parts_chunks
    [of "join group_sep sections" demo_env flicker_fact_data sections
        "Some (ascii ''T'')" "Some (ascii ''C'')" "\<lambda>k. PostOk"] s p u
  have 2: "message_parts (join group_sep sections) = sections"
    and 3: "\<forall>part \<in> set (message_parts (join group_sep sections)). \<not> sublist group_sep part"
    and 4: "send_telegram_message (Some (ascii ''T'')) (Some (ascii ''C'')) (\<lambda>k. PostOk)
        (join group_sep sections) = (Inr True, message_parts (join group_sep sections))"
    by blast+
  from short 1 s p u 2 3 4 show ?thesis
    by (intro conjI exI [of _ sections]) simp_all
qed

end
